theory Spec2Isabelle
  imports Complex_Main "HOL-Library.Product_Lexorder"
begin

section \<open>Domain suggestion service (app/services/domain\_suggestion.py)\<close>

subsection \<open>Text: code points, ASCII classes\<close>

text \<open>
  A Python \<open>str\<close> handed to \<open>clean_domain_name\<close> is a sequence of Unicode code points.
  \<open>unidecode\<close> is a third-party library; what it does is: a code point below 128 is kept,
  any other one is replaced by the ASCII text its table holds for it (possibly empty).
  The table is a parameter of the model. Its entries are ASCII by type
  (\<^typ>\<open>String.literal\<close> is the type of 7-bit strings), so everything after the first
  step of \<open>clean_domain_name\<close> is ASCII text, a \<^typ>\<open>string\<close>.
\<close>

type_synonym codepoint = nat
type_synonym pystr = "codepoint list"
type_synonym translit = "codepoint \<Rightarrow> String.literal"

definition to_pystr :: "string \<Rightarrow> pystr" where
  "to_pystr s = map of_char s"

definition unidecode :: "translit \<Rightarrow> pystr \<Rightarrow> string" where
  "unidecode tbl s =
     concat (map (\<lambda>c. if c < 128 then [char_of c] else String.explode (tbl c)) s)"

definition is_upper :: "char \<Rightarrow> bool" where
  "is_upper c = (65 \<le> (of_char c :: nat) \<and> (of_char c :: nat) \<le> 90)"

definition is_lower :: "char \<Rightarrow> bool" where
  "is_lower c = (97 \<le> (of_char c :: nat) \<and> (of_char c :: nat) \<le> 122)"

definition is_digit :: "char \<Rightarrow> bool" where
  "is_digit c = (48 \<le> (of_char c :: nat) \<and> (of_char c :: nat) \<le> 57)"

text \<open>\<open>\s\<close> of a \<open>str\<close> pattern, on ASCII: tab, LF, VT, FF, CR, the separators
  0x1C to 0x1F, and the space.\<close>

definition is_space :: "char \<Rightarrow> bool" where
  "is_space c = ((9 \<le> (of_char c :: nat) \<and> (of_char c :: nat) \<le> 13)
                 \<or> (28 \<le> (of_char c :: nat) \<and> (of_char c :: nat) \<le> 32))"

text \<open>\<open>\w\<close> on ASCII: letters, digits and the underscore.\<close>

definition is_word :: "char \<Rightarrow> bool" where
  "is_word c = (is_upper c \<or> is_lower c \<or> is_digit c \<or> c = CHR ''_'')"

definition lower_char :: "char \<Rightarrow> char" where
  "lower_char c = (if is_upper c then char_of ((of_char c :: nat) + 32) else c)"

definition lower :: "string \<Rightarrow> string" where
  "lower s = map lower_char s"

subsection \<open>The legal-suffix pattern\<close>

text \<open>
  \<open>re.sub(r'\b(gmbh|ag|kg|ohg|gbr|e\.?v\.?|ug|mbh)\b', '', name, flags=re.IGNORECASE)\<close>.
  The alternatives are tried in the order written; \<open>e\.?v\.?\<close> with its two greedy
  optional dots stands for \<open>e.v.\<close>, \<open>e.v\<close>, \<open>ev.\<close>, \<open>ev\<close>, tried in that order.
  A word boundary \<open>\b\<close> lies between two positions exactly one of which holds a word
  character; the start and the end of the text count as non-word.
\<close>

definition suffix_alternatives :: "string list" where
  "suffix_alternatives =
     [''gmbh'', ''ag'', ''kg'', ''ohg'', ''gbr'',
      ''e.v.'', ''e.v'', ''ev.'', ''ev'', ''ug'', ''mbh'']"

fun is_word_opt :: "char option \<Rightarrow> bool" where
  "is_word_opt None = False"
| "is_word_opt (Some c) = is_word c"

definition word_boundary :: "char option \<Rightarrow> char option \<Rightarrow> bool" where
  "word_boundary before after = (is_word_opt before \<noteq> is_word_opt after)"

fun head_opt :: "string \<Rightarrow> char option" where
  "head_opt [] = None"
| "head_opt (c # cs) = Some c"

text \<open>An alternative matches at the head of the text when the text starts with it, case
  ignored, and the match ends on a word boundary.\<close>

definition alt_matches :: "string \<Rightarrow> string \<Rightarrow> bool" where
  "alt_matches p s =
     (p \<noteq> [] \<and> length p \<le> length s \<and> lower (take (length p) s) = p
      \<and> word_boundary (Some (last (take (length p) s))) (head_opt (drop (length p) s)))"

text \<open>The length of the match of the whole pattern at the head of \<open>s\<close>, the character
  before it being \<open>before\<close>; \<open>None\<close> when the pattern does not match there.\<close>

definition suffix_match :: "char option \<Rightarrow> string \<Rightarrow> nat option" where
  "suffix_match before s =
     (if word_boundary before (head_opt s)
      then map_option length (find (\<lambda>p. alt_matches p s) suffix_alternatives)
      else None)"

text \<open>\<open>re.sub\<close> scans from the left: a match is deleted and the scan goes on behind it,
  otherwise the character is kept and the scan moves one position on.\<close>

function remove_suffixes :: "char option \<Rightarrow> string \<Rightarrow> string" where
  "remove_suffixes before [] = []"
| "remove_suffixes before (c # cs) =
     (case suffix_match before (c # cs) of
        Some n \<Rightarrow>
          remove_suffixes (Some (last (take n (c # cs)))) (drop n (c # cs))
      | None \<Rightarrow> c # remove_suffixes (Some c) cs)"
  by pat_completeness auto
termination
  by (relation "measure (\<lambda>(b, s). length s)")
    (auto simp: suffix_match_def find_Some_iff alt_matches_def split: if_splits)

subsection \<open>The remaining steps of clean\_domain\_name\<close>

text \<open>\<open>re.sub(r'[^a-z0-9\s-]', '', name)\<close>\<close>

definition keep_char :: "char \<Rightarrow> bool" where
  "keep_char c = (is_lower c \<or> is_digit c \<or> is_space c \<or> c = CHR ''-'')"

definition strip_special :: "string \<Rightarrow> string" where
  "strip_special s = filter keep_char s"

text \<open>\<open>re.sub(r'[\s-]+', '-', name)\<close>\<close>

definition is_sep :: "char \<Rightarrow> bool" where
  "is_sep c = (is_space c \<or> c = CHR ''-'')"

function collapse :: "string \<Rightarrow> string" where
  "collapse [] = []"
| "collapse (c # cs) =
     (if is_sep c then CHR ''-'' # collapse (dropWhile is_sep cs) else c # collapse cs)"
  by pat_completeness auto
termination
  by (relation "measure length") (auto simp: less_Suc_eq_le length_dropWhile_le)

text \<open>\<open>name.strip('-')\<close>\<close>

definition is_hyphen :: "char \<Rightarrow> bool" where
  "is_hyphen c = (c = CHR ''-'')"

definition strip_hyphens :: "string \<Rightarrow> string" where
  "strip_hyphens s = rev (dropWhile is_hyphen (rev (dropWhile is_hyphen s)))"

definition clean_domain_name :: "translit \<Rightarrow> pystr \<Rightarrow> string" where
  "clean_domain_name tbl name =
     strip_hyphens (collapse (strip_special (remove_suffixes None (lower (unidecode tbl name)))))"

text \<open>A few entries of unidecode's table (u-umlaut, a-umlaut, o-umlaut, sharp s), for
  the concrete instances below; any other code point above 127 is dropped.\<close>

definition translit_sample :: translit where
  "translit_sample c =
     (if c = 252 then STR ''u'' else if c = 228 then STR ''a''
      else if c = 246 then STR ''o'' else if c = 223 then STR ''ss'' else STR '''')"

subsection \<open>generate\_variations\<close>

text \<open>\<open>branche_keywords.get(branche, [])\<close>\<close>

definition branche_keywords :: "string \<Rightarrow> string list" where
  "branche_keywords b =
     (if b = ''handwerker'' then [''handwerk'', ''meister'', ''service'']
      else if b = ''haendler'' then [''shop'', ''store'', ''markt'']
      else if b = ''dienstleister'' then [''service'', ''pro'', ''experte'']
      else [])"

text \<open>The loop that removes duplicates: \<open>seen\<close> is the set, \<open>acc\<close> the list
  \<open>unique_variations\<close>.\<close>

fun unique_loop :: "string set \<Rightarrow> string list \<Rightarrow> string list \<Rightarrow> string list" where
  "unique_loop seen acc [] = acc"
| "unique_loop seen acc (v # vs) =
     (if v \<notin> seen then unique_loop (insert v seen) (acc @ [v]) vs
      else unique_loop seen acc vs)"

text \<open>\<open>branche\<close> is \<open>Optional[str]\<close>; \<open>if branche:\<close> holds for a non-empty string.\<close>

definition generate_variations :: "string \<Rightarrow> string option \<Rightarrow> string list" where
  "generate_variations base branche =
     (let keywords = (case branche of
                        None \<Rightarrow> []
                      | Some b \<Rightarrow> if b = [] then [] else branche_keywords b);
          variations =
            [base]
            @ concat (map (\<lambda>keyword. [base @ ''-'' @ keyword, keyword @ ''-'' @ base]) keywords)
            @ [base @ ''-online'', ''mein-'' @ base, base @ ''-24'']
      in unique_loop {} [] variations)"

subsection \<open>generate\_suggestions\<close>

text \<open>A row of the table \<open>domains_tld\<close> (the columns of \<open>DomainTLDBase\<close> the code reads,
  with the price as a rational number) and a \<open>DomainSuggestion\<close>.\<close>

record tld_row =
  tld :: string
  vk_eur :: rat
  aktiv :: bool
  sortierung :: int
  prio :: int

record suggestion =
  sg_domain :: string
  sg_tld :: string
  sg_verfuegbar :: "bool option"
  sg_preis_eur :: rat
  sg_prio :: int
  sg_empfohlen :: bool

text \<open>The body of the inner loop: the suggestion built from a variation and a TLD row.\<close>

definition make_suggestion :: "string \<Rightarrow> string \<Rightarrow> tld_row \<Rightarrow> suggestion" where
  "make_suggestion clean_base variation tld_data =
     \<lparr> sg_domain = variation @ ''.'' @ tld tld_data,
       sg_tld = tld tld_data,
       sg_verfuegbar = None,
       sg_preis_eur = vk_eur tld_data,
       sg_prio = prio tld_data,
       sg_empfohlen = (variation = clean_base \<and> prio tld_data \<ge> 90) \<rparr>"

text \<open>The inner loop over the TLD rows, with its \<open>break\<close>.\<close>

fun tld_loop ::
  "int \<Rightarrow> string \<Rightarrow> string \<Rightarrow> tld_row list \<Rightarrow> suggestion list \<Rightarrow> suggestion list" where
  "tld_loop max_suggestions clean_base variation [] suggestions = suggestions"
| "tld_loop max_suggestions clean_base variation (tld_data # rest) suggestions =
     (if int (length suggestions) \<ge> max_suggestions then suggestions
      else tld_loop max_suggestions clean_base variation rest
             (suggestions @ [make_suggestion clean_base variation tld_data]))"

text \<open>The outer loop over the variations, with its \<open>break\<close> after the inner loop.\<close>

fun variation_loop ::
  "int \<Rightarrow> string \<Rightarrow> string list \<Rightarrow> tld_row list \<Rightarrow> suggestion list \<Rightarrow> suggestion list" where
  "variation_loop max_suggestions clean_base [] tlds suggestions = suggestions"
| "variation_loop max_suggestions clean_base (variation # rest) tlds suggestions =
     (let suggestions' = tld_loop max_suggestions clean_base variation tlds suggestions
      in if int (length suggestions') \<ge> max_suggestions then suggestions'
         else variation_loop max_suggestions clean_base rest tlds suggestions')"

text \<open>The sort key \<open>lambda s: (not s.empfohlen, -s.prio)\<close>; pairs are ordered
  lexicographically, \<open>False\<close> before \<open>True\<close>. \<open>list.sort\<close> is stable, as \<open>sort_key\<close> is.\<close>

definition suggestion_key :: "suggestion \<Rightarrow> bool \<times> int" where
  "suggestion_key s = (\<not> sg_empfohlen s, - sg_prio s)"

text \<open>The slice \<open>xs[:n]\<close>; a negative \<open>n\<close> counts from the end.\<close>

definition slice_to :: "int \<Rightarrow> 'a list \<Rightarrow> 'a list" where
  "slice_to n xs =
     (if 0 \<le> n then take (nat n) xs else take (length xs - nat (- n)) xs)"

text \<open>\<open>get_tlds_for_country\<close> stands for the data store call
  \<open>self.db.get_tlds_for_country(land, limit=10)\<close>: the rows it returns for a country
  and a limit.\<close>

definition generate_suggestions ::
  "translit \<Rightarrow> (string \<Rightarrow> nat \<Rightarrow> tld_row list) \<Rightarrow> pystr \<Rightarrow> string \<Rightarrow> string option \<Rightarrow> int
     \<Rightarrow> suggestion list" where
  "generate_suggestions tbl get_tlds_for_country wunschdomain_basis land branche max_suggestions =
     (let clean_base = clean_domain_name tbl wunschdomain_basis;
          variations = generate_variations clean_base branche;
          tlds = get_tlds_for_country land 10;
          suggestions = variation_loop max_suggestions clean_base (take 5 variations) tlds []
      in slice_to max_suggestions (sort_key suggestion_key suggestions))"


section \<open>Registrar adapter (app/services/inwx\_service.py)\<close>

subsection \<open>JSON values, exceptions, the remote side\<close>

text \<open>A parsed JSON body. A dict is the list of its items (the keys are distinct), read
  with \<open>map_of\<close>; numbers are rationals and compare by value, as Python compares
  \<open>1000.0\<close> and \<open>1000\<close>.\<close>

datatype json =
    JNull
  | JBool bool
  | JNum rat
  | JStr string
  | JArr "json list"
  | JObj "(string \<times> json) list"

text \<open>The exceptions of the model. A formatted message keeps the value it formats.
  All of them are caught by \<open>except Exception\<close>; cancellation of the task is outside the
  model.\<close>

datatype exn =
    TransportError string  \<comment> \<open>raised by \<open>client.post\<close>, \<open>raise_for_status\<close> or \<open>response.json\<close>\<close>
  | ApiError json          \<comment> \<open>\<open>ValueError(f"INWX API Error: {data['error']}")\<close>\<close>
  | LoginFailed json       \<comment> \<open>\<open>ValueError(f"INWX login failed: {result.get('msg')}")\<close>\<close>
  | NotADict json          \<comment> \<open>\<open>TypeError\<close>/\<open>AttributeError\<close>: \<open>in\<close> or \<open>.get\<close> on a value that is no dict\<close>
  | ValidationError json   \<comment> \<open>pydantic: the value does not fit a \<open>str\<close> field\<close>
  | IndexError
  | DataStoreError string  \<comment> \<open>raised by the data store client's \<open>execute\<close>\<close>
  | HTTPException nat string

text \<open>A value that is either JSON or the text \<open>str(e)\<close> of an exception.\<close>

datatype pyval = J json | StrOf exn

fun truthy :: "json \<Rightarrow> bool" where
  "truthy JNull = False"
| "truthy (JBool b) = b"
| "truthy (JNum r) = (r \<noteq> 0)"
| "truthy (JStr s) = (s \<noteq> [])"
| "truthy (JArr xs) = (xs \<noteq> [])"
| "truthy (JObj kvs) = (kvs \<noteq> [])"

text \<open>\<open>d.get(key, default)\<close>, the default being \<open>dflt\<close>\<close>

fun py_get :: "json \<Rightarrow> string \<Rightarrow> json \<Rightarrow> exn + json" where
  "py_get (JObj kvs) key dflt =
     Inr (case map_of kvs key of Some v \<Rightarrow> v | None \<Rightarrow> dflt)"
| "py_get v key dflt = Inl (NotADict v)"

text \<open>\<open>v == n\<close> for a number \<open>n\<close>: \<open>True\<close> and \<open>False\<close> count as 1 and 0.\<close>

fun py_eq_num :: "json \<Rightarrow> rat \<Rightarrow> bool" where
  "py_eq_num (JNum r) n = (r = n)"
| "py_eq_num (JBool b) n = ((if b then 1 else 0) = n)"
| "py_eq_num v n = False"

type_synonym rpc_call = "string \<times> (string \<times> json) list"

text \<open>What one HTTP exchange with the registrar gives: an exception out of the HTTP
  client (network error, error status, body that is no JSON), or the parsed body.\<close>

datatype http_outcome = Failed string | Answered json

text \<open>The surroundings of a run: the settings, the registrar's behaviour (its answer to
  the \<open>n\<close>-th call of the run), and the data store's failures (whether its \<open>n\<close>-th
  request of the run fails, and how).\<close>

record env =
  inwx_username :: string
  inwx_password :: string
  remote :: "nat \<Rightarrow> rpc_call \<Rightarrow> http_outcome"
  data_store_fault :: "nat \<Rightarrow> string option"

text \<open>Rows of the tables \<open>kunden\<close> and \<open>domain_registrierung\<close>. The two timestamp columns
  the database fills in are left out.\<close>

record kunde =
  k_id :: string
  k_saas_dienst_id :: string
  k_name :: string
  k_email :: string
  k_land :: string
  k_branche :: "string option"

text \<open>The dict \<open>INWXService.register_domain\<close> returns.\<close>

record register_dict =
  rg_success :: bool
  rg_domain :: string
  rg_status :: string
  rg_message :: string
  rg_registration_id :: string

record registrierung =
  r_id :: string
  r_kunden_id :: string
  r_wunschdomain :: string
  r_tld :: string
  r_vollstaendige_domain :: string
  r_vk_preis_eur :: rat
  r_status :: string
  r_inwx_request_payload :: json
  r_inwx_response_payload :: register_dict

text \<open>The world outside the process: the calls sent to the registrar so far, the number
  of requests sent to the data store so far, and the tables.\<close>

record world =
  rpc_calls :: "rpc_call list"
  db_requests :: nat
  kunden :: "kunde list"
  domains_tld :: "tld_row list"
  domain_registrierung :: "registrierung list"

record inwx_service =
  username :: string
  password :: string
  session_id :: json

text \<open>\<open>INWXService()\<close>\<close>

definition INWXService :: "env \<Rightarrow> inwx_service" where
  "INWXService env =
     \<lparr> username = inwx_username env, password = inwx_password env, session_id = JNull \<rparr>"

subsection \<open>\_call\_api, login, logout\<close>

text \<open>\<open>params\<close> is the dict sent; \<open>[]\<close> also stands for \<open>None\<close> (\<open>params or {}\<close>).\<close>

definition call_api ::
  "env \<Rightarrow> world \<Rightarrow> string \<Rightarrow> (string \<times> json) list \<Rightarrow> (exn + json) \<times> world" where
  "call_api env w method params =
     (let w' = w\<lparr> rpc_calls := rpc_calls w @ [(method, params)] \<rparr> in
      case remote env (length (rpc_calls w)) (method, params) of
        Failed msg \<Rightarrow> (Inl (TransportError msg), w')
      | Answered data \<Rightarrow>
          (case data of
             JObj kvs \<Rightarrow>
               (case map_of kvs ''error'' of
                  Some err \<Rightarrow> (Inl (ApiError err), w')
                | None \<Rightarrow>
                    (Inr (case map_of kvs ''result'' of Some r \<Rightarrow> r | None \<Rightarrow> JObj []), w'))
           | _ \<Rightarrow> (Inl (NotADict data), w')))"

definition login ::
  "env \<Rightarrow> inwx_service \<Rightarrow> world \<Rightarrow> (exn + json) \<times> inwx_service \<times> world" where
  "login env self w =
     (case call_api env w ''account.login''
             [(''user'', JStr (username self)), (''pass'', JStr (password self))] of
        (Inl e, w1) \<Rightarrow> (Inl e, self, w1)
      | (Inr result, w1) \<Rightarrow>
          (case py_get result ''code'' JNull of
             Inl e \<Rightarrow> (Inl e, self, w1)
           | Inr code \<Rightarrow>
               if \<not> py_eq_num code 1000 then
                 (case py_get result ''msg'' JNull of
                    Inl e \<Rightarrow> (Inl e, self, w1)
                  | Inr msg \<Rightarrow> (Inl (LoginFailed msg), self, w1))
               else
                 (case py_get result ''resData'' (JObj []) of
                    Inl e \<Rightarrow> (Inl e, self, w1)
                  | Inr res_data \<Rightarrow>
                      (case py_get res_data ''sessid'' JNull of
                         Inl e \<Rightarrow> (Inl e, self, w1)
                       | Inr sessid \<Rightarrow> (Inr sessid, self\<lparr> session_id := sessid \<rparr>, w1)))))"

text \<open>\<open>try: ... finally: self._session_id = None\<close>: the session id is cleared on both
  paths, and an exception of the call goes on to the caller.\<close>

definition logout ::
  "env \<Rightarrow> inwx_service \<Rightarrow> world \<Rightarrow> (exn + unit) \<times> inwx_service \<times> world" where
  "logout env self w =
     (if truthy (session_id self) then
        (case call_api env w ''account.logout'' [] of
           (Inl e, w1) \<Rightarrow> (Inl e, self\<lparr> session_id := JNull \<rparr>, w1)
         | (Inr result, w1) \<Rightarrow> (Inr (), self\<lparr> session_id := JNull \<rparr>, w1))
      else (Inr (), self, w))"

subsection \<open>check\_domain, check\_domains\_batch, register\_domain\<close>

text \<open>The dict \<open>check_domain\<close> returns; \<open>None\<close> in the last two fields means that the
  key is absent.\<close>

record check_dict =
  cd_domain :: string
  cd_avail :: bool
  cd_status :: string
  cd_price :: "json option"
  cd_error :: "pyval option"

definition error_dict :: "string \<Rightarrow> pyval \<Rightarrow> check_dict" where
  "error_dict domain err =
     \<lparr> cd_domain = domain, cd_avail = False, cd_status = ''error'',
       cd_price = None, cd_error = Some err \<rparr>"

text \<open>The statements of the \<open>try\<close> block behind the call.\<close>

definition check_reply :: "string \<Rightarrow> json \<Rightarrow> exn + check_dict" where
  "check_reply domain result =
     (case py_get result ''code'' JNull of
        Inl e \<Rightarrow> Inl e
      | Inr code \<Rightarrow>
          if \<not> py_eq_num code 1000 then
            (case py_get result ''msg'' JNull of
               Inl e \<Rightarrow> Inl e
             | Inr msg \<Rightarrow> Inr (error_dict domain (J msg)))
          else
            (case py_get result ''resData'' (JObj []) of
               Inl e \<Rightarrow> Inl e
             | Inr res_data \<Rightarrow>
                 (case py_get res_data ''avail'' (JNum 0) of
                    Inl e \<Rightarrow> Inl e
                  | Inr a \<Rightarrow>
                      (let avail = py_eq_num a 1 in
                       case py_get res_data ''price'' JNull of
                         Inl e \<Rightarrow> Inl e
                       | Inr price \<Rightarrow>
                           Inr \<lparr> cd_domain = domain, cd_avail = avail,
                                 cd_status = (if avail then ''available'' else ''registered''),
                                 cd_price = Some price, cd_error = None \<rparr>))))"

text \<open>\<open>if not self._session_id: await self.login()\<close>\<close>

definition ensure_session ::
  "env \<Rightarrow> inwx_service \<Rightarrow> world \<Rightarrow> (exn + json) \<times> inwx_service \<times> world" where
  "ensure_session env self w =
     (if \<not> truthy (session_id self) then login env self w
      else (Inr (session_id self), self, w))"

text \<open>The login stands before the \<open>try\<close>; \<open>except Exception as e\<close> turns whatever the
  block raises into the error dict.\<close>

definition check_domain ::
  "env \<Rightarrow> inwx_service \<Rightarrow> world \<Rightarrow> string \<Rightarrow> (exn + check_dict) \<times> inwx_service \<times> world" where
  "check_domain env self w domain =
     (case ensure_session env self w of
        (Inl e, self1, w1) \<Rightarrow> (Inl e, self1, w1)
      | (Inr sid, self1, w1) \<Rightarrow>
          (case call_api env w1 ''domain.check'' [(''domain'', JStr domain)] of
             (Inl e, w2) \<Rightarrow> (Inr (error_dict domain (StrOf e)), self1, w2)
           | (Inr result, w2) \<Rightarrow>
               (case check_reply domain result of
                  Inl e \<Rightarrow> (Inr (error_dict domain (StrOf e)), self1, w2)
                | Inr d \<Rightarrow> (Inr d, self1, w2))))"

fun check_domains_batch ::
  "env \<Rightarrow> inwx_service \<Rightarrow> world \<Rightarrow> string list \<Rightarrow> check_dict list
     \<Rightarrow> (exn + check_dict list) \<times> inwx_service \<times> world" where
  "check_domains_batch env self w [] results = (Inr results, self, w)"
| "check_domains_batch env self w (domain # rest) results =
     (case check_domain env self w domain of
        (Inl e, self1, w1) \<Rightarrow> (Inl e, self1, w1)
      | (Inr result, self1, w1) \<Rightarrow> check_domains_batch env self1 w1 rest (results @ [result]))"

definition inwx_register_domain :: "string \<Rightarrow> register_dict" where
  "inwx_register_domain domain =
     \<lparr> rg_success = True, rg_domain = domain, rg_status = ''pending'',
       rg_message = ''POC: Fake domain registration successful'',
       rg_registration_id = ''fake-reg-'' @ domain \<rparr>"

subsection \<open>The context manager\<close>

text \<open>\<open>async with INWXService() as inwx: body\<close>. \<open>__aenter__\<close> is \<open>login\<close>; when it raises,
  neither the body nor \<open>__aexit__\<close> runs. \<open>__aexit__\<close> is \<open>logout\<close> and returns \<open>None\<close>:
  an exception of the body goes on; an exception of \<open>__aexit__\<close> itself is the one that
  leaves the statement.\<close>

definition aenter ::
  "env \<Rightarrow> inwx_service \<Rightarrow> world \<Rightarrow> (exn + unit) \<times> inwx_service \<times> world" where
  "aenter env self w =
     (case login env self w of
        (Inl e, self1, w1) \<Rightarrow> (Inl e, self1, w1)
      | (Inr sid, self1, w1) \<Rightarrow> (Inr (), self1, w1))"

definition aexit ::
  "env \<Rightarrow> inwx_service \<Rightarrow> world \<Rightarrow> (exn + unit) \<times> inwx_service \<times> world" where
  "aexit env self w = logout env self w"

definition async_with ::
  "env \<Rightarrow> inwx_service \<Rightarrow> world
     \<Rightarrow> (inwx_service \<Rightarrow> world \<Rightarrow> (exn + 'a) \<times> inwx_service \<times> world)
     \<Rightarrow> (exn + 'a) \<times> inwx_service \<times> world" where
  "async_with env self w body =
     (case aenter env self w of
        (Inl e, self1, w1) \<Rightarrow> (Inl e, self1, w1)
      | (Inr u, self1, w1) \<Rightarrow>
          (case body self1 w1 of
             (r, self2, w2) \<Rightarrow>
               (case aexit env self2 w2 of
                  (Inl e, self3, w3) \<Rightarrow> (Inl e, self3, w3)
                | (Inr u', self3, w3) \<Rightarrow> (r, self3, w3))))"


section \<open>Data store adapter (app/services/supabase\_client.py)\<close>

text \<open>Every method sends one request; \<open>execute\<close> raises when the data store fails.
  \<open>response.data[0] if response.data else None\<close> is the first row that matches.\<close>

definition get_kunde_by_id ::
  "env \<Rightarrow> world \<Rightarrow> string \<Rightarrow> (exn + kunde option) \<times> world" where
  "get_kunde_by_id env w kunden_id =
     (let w' = w\<lparr> db_requests := Suc (db_requests w) \<rparr> in
      case data_store_fault env (db_requests w) of
        Some msg \<Rightarrow> (Inl (DataStoreError msg), w')
      | None \<Rightarrow> (Inr (find (\<lambda>k. k_id k = kunden_id) (kunden w)), w'))"

definition get_tld_by_name ::
  "env \<Rightarrow> world \<Rightarrow> string \<Rightarrow> (exn + tld_row option) \<times> world" where
  "get_tld_by_name env w name =
     (let w' = w\<lparr> db_requests := Suc (db_requests w) \<rparr> in
      case data_store_fault env (db_requests w) of
        Some msg \<Rightarrow> (Inl (DataStoreError msg), w')
      | None \<Rightarrow> (Inr (find (\<lambda>t. tld t = name) (domains_tld w)), w'))"

text \<open>The insert; the row that comes back is the row stored.\<close>

definition create_domain_registrierung ::
  "env \<Rightarrow> world \<Rightarrow> registrierung \<Rightarrow> (exn + registrierung) \<times> world" where
  "create_domain_registrierung env w registrierung_data =
     (let w' = w\<lparr> db_requests := Suc (db_requests w) \<rparr> in
      case data_store_fault env (db_requests w) of
        Some msg \<Rightarrow> (Inl (DataStoreError msg), w')
      | None \<Rightarrow>
          (Inr registrierung_data,
           w'\<lparr> domain_registrierung := domain_registrierung w' @ [registrierung_data] \<rparr>))"

section \<open>Domain endpoints (app/api/domains.py)\<close>

text \<open>The endpoints are modelled behind the token check and the validation of the request
  body: a domain is a string, a customer id the text of a UUID.\<close>

subsection \<open>check\_domains\<close>

record check_result =
  cr_domain :: string
  cr_verfuegbar :: bool
  cr_preis_eur :: "rat option"
  cr_fehler :: "pyval option"

text \<open>\<open>domain.split(".")[-1]\<close>: the text behind the last dot, the whole text when there
  is none.\<close>

definition last_label :: "string \<Rightarrow> string" where
  "last_label domain = rev (takeWhile (\<lambda>c. c \<noteq> CHR ''.'') (rev domain))"

text \<open>The field \<open>fehler: Optional[str]\<close> takes \<open>None\<close> and text; any other value makes
  the construction of the \<open>DomainCheckResult\<close> raise.\<close>

fun as_optional_str :: "pyval option \<Rightarrow> exn + pyval option" where
  "as_optional_str None = Inr None"
| "as_optional_str (Some (J JNull)) = Inr None"
| "as_optional_str (Some (J (JStr s))) = Inr (Some (J (JStr s)))"
| "as_optional_str (Some (StrOf e)) = Inr (Some (StrOf e))"
| "as_optional_str (Some (J v)) = Inl (ValidationError v)"

text \<open>The \<open>try\<close> block of the loop body.\<close>

definition check_try ::
  "env \<Rightarrow> inwx_service \<Rightarrow> world \<Rightarrow> string
     \<Rightarrow> (exn + check_result) \<times> inwx_service \<times> world" where
  "check_try env inwx w domain =
     (case check_domain env inwx w domain of
        (Inl e, inwx1, w1) \<Rightarrow> (Inl e, inwx1, w1)
      | (Inr inwx_result, inwx1, w1) \<Rightarrow>
          (case get_tld_by_name env w1 (last_label domain) of
             (Inl e, w2) \<Rightarrow> (Inl e, inwx1, w2)
           | (Inr tld_data, w2) \<Rightarrow>
               (case as_optional_str (cd_error inwx_result) of
                  Inl e \<Rightarrow> (Inl e, inwx1, w2)
                | Inr fehler \<Rightarrow>
                    (Inr \<lparr> cr_domain = domain,
                           cr_verfuegbar = cd_avail inwx_result,
                           cr_preis_eur = map_option vk_eur tld_data,
                           cr_fehler = fehler \<rparr>, inwx1, w2))))"

text \<open>The loop body: the \<open>try\<close> block and its \<open>except Exception as e\<close>.\<close>

definition check_one ::
  "env \<Rightarrow> inwx_service \<Rightarrow> world \<Rightarrow> string \<Rightarrow> check_result \<times> inwx_service \<times> world" where
  "check_one env inwx w domain =
     (case check_try env inwx w domain of
        (Inl e, inwx1, w1) \<Rightarrow>
          (\<lparr> cr_domain = domain, cr_verfuegbar = False, cr_preis_eur = None,
             cr_fehler = Some (StrOf e) \<rparr>, inwx1, w1)
      | (Inr result, inwx1, w1) \<Rightarrow> (result, inwx1, w1))"

fun check_loop ::
  "env \<Rightarrow> inwx_service \<Rightarrow> world \<Rightarrow> string list \<Rightarrow> check_result list
     \<Rightarrow> check_result list \<times> inwx_service \<times> world" where
  "check_loop env inwx w [] results = (results, inwx, w)"
| "check_loop env inwx w (domain # rest) results =
     (case check_one env inwx w domain of
        (result, inwx1, w1) \<Rightarrow> check_loop env inwx1 w1 rest (results @ [result]))"

text \<open>The body of the \<open>async with\<close> statement: the loop, which raises nothing.\<close>

definition check_scope ::
  "env \<Rightarrow> string list \<Rightarrow> inwx_service \<Rightarrow> world
     \<Rightarrow> (exn + check_result list) \<times> inwx_service \<times> world" where
  "check_scope env domains inwx w =
     (case check_loop env inwx w domains [] of
        (results, inwx1, w1) \<Rightarrow> (Inr results, inwx1, w1))"

definition check_domains ::
  "env \<Rightarrow> world \<Rightarrow> string list \<Rightarrow> (exn + check_result list) \<times> world" where
  "check_domains env w domains =
     (case async_with env (INWXService env) w (check_scope env domains) of
        (r, inwx3, w3) \<Rightarrow> (r, w3))"

subsection \<open>register\_domain\<close>

record register_response =
  rr_success :: bool
  rr_registrierung :: "registrierung option"
  rr_fehler :: "string option"

text \<open>\<open>domain.rsplit(".", 1)\<close>: cut at the last dot; one part when there is no dot.\<close>

definition before_last_dot :: "string \<Rightarrow> string" where
  "before_last_dot domain = rev (drop 1 (dropWhile (\<lambda>c. c \<noteq> CHR ''.'') (rev domain)))"

definition rsplit1 :: "string \<Rightarrow> string list" where
  "rsplit1 domain =
     (if CHR ''.'' \<in> set domain then [before_last_dot domain, last_label domain]
      else [domain])"

text \<open>The dict \<open>registrierung_data\<close>. \<open>fresh_id\<close> is the text of the UUID that \<open>uuid4()\<close>
  draws.\<close>

definition registrierung_data ::
  "string \<Rightarrow> string \<Rightarrow> string \<Rightarrow> string \<Rightarrow> string \<Rightarrow> tld_row \<Rightarrow> register_dict
     \<Rightarrow> registrierung" where
  "registrierung_data fresh_id kunden_id wunschdomain tld_name domain tld_data inwx_result =
     \<lparr> r_id = fresh_id,
       r_kunden_id = kunden_id,
       r_wunschdomain = wunschdomain,
       r_tld = tld_name,
       r_vollstaendige_domain = domain,
       r_vk_preis_eur = vk_eur tld_data,
       r_status = (if rg_success inwx_result then ''registered'' else ''failed''),
       r_inwx_request_payload = JObj [(''domain'', JStr domain)],
       r_inwx_response_payload = inwx_result \<rparr>"

text \<open>The body of the \<open>async with\<close> statement: the call of the adapter's
  \<open>register_domain\<close>, with \<open>customer_data={}\<close>.\<close>

definition register_scope ::
  "string \<Rightarrow> inwx_service \<Rightarrow> world \<Rightarrow> (exn + register_dict) \<times> inwx_service \<times> world" where
  "register_scope domain inwx w = (Inr (inwx_register_domain domain), inwx, w)"

definition register_domain ::
  "env \<Rightarrow> world \<Rightarrow> string \<Rightarrow> string \<Rightarrow> string \<Rightarrow> (exn + register_response) \<times> world" where
  "register_domain env w fresh_id kunden_id domain =
     (case get_kunde_by_id env w kunden_id of
        (Inl e, w1) \<Rightarrow> (Inl e, w1)
      | (Inr None, w1) \<Rightarrow>
          (Inl (HTTPException 404 (''Customer '' @ kunden_id @ '' not found'')), w1)
      | (Inr (Some kunde), w1) \<Rightarrow>
          if CHR ''.'' \<notin> set domain then
            (Inl (HTTPException 400 ''Invalid domain format''), w1)
          else
            (case rsplit1 domain of
               [wunschdomain, tld_name] \<Rightarrow>
                 (case get_tld_by_name env w1 tld_name of
                    (Inl e, w2) \<Rightarrow> (Inl e, w2)
                  | (Inr None, w2) \<Rightarrow>
                      (Inl (HTTPException 400
                              (''TLD '' @ [CHR 0x27] @ tld_name @ [CHR 0x27] @ '' not supported'')),
                       w2)
                  | (Inr (Some tld_data), w2) \<Rightarrow>
                      (case async_with env (INWXService env) w2 (register_scope domain) of
                         (Inl e, inwx3, w3) \<Rightarrow> (Inl e, w3)
                       | (Inr inwx_result, inwx3, w3) \<Rightarrow>
                           (case create_domain_registrierung env w3
                                   (registrierung_data fresh_id kunden_id wunschdomain tld_name
                                      domain tld_data inwx_result) of
                              (Inl e, w4) \<Rightarrow> (Inl e, w4)
                            | (Inr registrierung, w4) \<Rightarrow>
                                (Inr \<lparr> rr_success = rg_success inwx_result,
                                       rr_registrierung = Some registrierung,
                                       rr_fehler = None \<rparr>, w4))))
             | _ \<Rightarrow> (Inl IndexError, w1)))"


section \<open>Sample surroundings for the concrete instances\<close>

definition login_answer :: json where
  "login_answer =
     JObj [(''result'', JObj [(''code'', JNum 1000),
                              (''resData'', JObj [(''sessid'', JStr ''s1'')])])]"

definition plain_answer :: json where
  "plain_answer = JObj [(''result'', JObj [(''code'', JNum 1000)])]"

definition free_answer :: json where
  "free_answer =
     JObj [(''result'', JObj [(''code'', JNum 1000),
                              (''resData'', JObj [(''avail'', JNum 1), (''price'', JNum 10)])])]"

definition taken_answer :: json where
  "taken_answer =
     JObj [(''result'', JObj [(''code'', JNum 1000),
                              (''resData'', JObj [(''avail'', JNum 0)])])]"

definition refused_answer :: json where
  "refused_answer =
     JObj [(''result'', JObj [(''code'', JNum 2303), (''msg'', JStr ''Object does not exist'')])]"

text \<open>A registrar that answers: \<open>free.de\<close> is free, the check of \<open>odd.de\<close> is refused
  with code 2303, the check of \<open>down.de\<close> times out, any other domain is taken.\<close>

definition remote_up :: "nat \<Rightarrow> rpc_call \<Rightarrow> http_outcome" where
  "remote_up n call =
     (if fst call = ''account.login'' then Answered login_answer
      else if fst call = ''domain.check'' then
        (if snd call = [(''domain'', JStr ''free.de'')] then Answered free_answer
         else if snd call = [(''domain'', JStr ''odd.de'')] then Answered refused_answer
         else if snd call = [(''domain'', JStr ''down.de'')] then Failed ''timeout''
         else Answered taken_answer)
      else Answered plain_answer)"

text \<open>A registrar that cannot be reached, and one that answers all but the logout.\<close>

definition remote_down :: "nat \<Rightarrow> rpc_call \<Rightarrow> http_outcome" where
  "remote_down n call = Failed ''connection refused''"

definition remote_no_logout :: "nat \<Rightarrow> rpc_call \<Rightarrow> http_outcome" where
  "remote_no_logout n call =
     (if fst call = ''account.logout'' then Failed ''connection reset'' else remote_up n call)"

definition no_fault :: "nat \<Rightarrow> string option" where
  "no_fault n = None"

text \<open>A data store whose second request of the run fails.\<close>

definition second_fault :: "nat \<Rightarrow> string option" where
  "second_fault n = (if n = 1 then Some ''data store timeout'' else None)"

definition env_up :: env where
  "env_up = \<lparr> inwx_username = ''user'', inwx_password = ''secret'',
              remote = remote_up, data_store_fault = no_fault \<rparr>"

definition env_down :: env where
  "env_down = \<lparr> inwx_username = ''user'', inwx_password = ''secret'',
                remote = remote_down, data_store_fault = no_fault \<rparr>"

definition env_no_logout :: env where
  "env_no_logout = \<lparr> inwx_username = ''user'', inwx_password = ''secret'',
                     remote = remote_no_logout, data_store_fault = no_fault \<rparr>"

definition env_flaky :: env where
  "env_flaky = \<lparr> inwx_username = ''user'', inwx_password = ''secret'',
                 remote = remote_up, data_store_fault = second_fault \<rparr>"

definition tld_de :: tld_row where
  "tld_de = \<lparr> tld = ''de'', vk_eur = 10, aktiv = True, sortierung = 1, prio = 100 \<rparr>"

definition tld_com :: tld_row where
  "tld_com = \<lparr> tld = ''com'', vk_eur = 12, aktiv = True, sortierung = 2, prio = 90 \<rparr>"

definition tld_net :: tld_row where
  "tld_net = \<lparr> tld = ''net'', vk_eur = 13, aktiv = True, sortierung = 3, prio = 89 \<rparr>"

definition tlds_sample :: "string \<Rightarrow> nat \<Rightarrow> tld_row list" where
  "tlds_sample land limit = take limit [tld_de, tld_com, tld_net]"

definition kunde_sample :: kunde where
  "kunde_sample = \<lparr> k_id = ''c1'', k_saas_dienst_id = ''d1'', k_name = ''Schreinerei'',
                    k_email = ''info@example.org'', k_land = ''DE'', k_branche = None \<rparr>"

definition world_sample :: world where
  "world_sample = \<lparr> rpc_calls = [], db_requests = 0, kunden = [kunde_sample],
                    domains_tld = [tld_de, tld_com, tld_net], domain_registrierung = [] \<rparr>"



text \<open>A body of the \<open>async with\<close> statement that raises.\<close>

definition raising_scope ::
  "inwx_service \<Rightarrow> world \<Rightarrow> (exn + unit) \<times> inwx_service \<times> world" where
  "raising_scope inwx w = (Inl IndexError, inwx, w)"

section \<open>Notions used in the statements\<close>

text \<open>The characters of a normalised token, and the pairs of neighbours it admits.\<close>

definition dns_char :: "char \<Rightarrow> bool" where
  "dns_char c = (is_lower c \<or> is_digit c \<or> c = CHR ''-'')"

definition no_hyphen_pair :: "char \<Rightarrow> char \<Rightarrow> bool" where
  "no_hyphen_pair a b = (\<not> (a = CHR ''-'' \<and> b = CHR ''-''))"

text \<open>All combinations of variations and TLD rows, variations outside.\<close>

definition candidates :: "string \<Rightarrow> string list \<Rightarrow> tld_row list \<Rightarrow> suggestion list" where
  "candidates clean_base variations tlds =
     concat (map (\<lambda>variation. map (make_suggestion clean_base variation) tlds) variations)"

text \<open>The name part of a suggestion: its domain without the dot and the TLD.\<close>

definition name_part :: "suggestion \<Rightarrow> string" where
  "name_part s = take (length (sg_domain s) - (length (sg_tld s) + 1)) (sg_domain s)"

text \<open>The order the ranking promises between an earlier and a later suggestion.\<close>

definition ranked_before :: "suggestion \<Rightarrow> suggestion \<Rightarrow> bool" where
  "ranked_before A B =
     ((sg_empfohlen A \<and> \<not> sg_empfohlen B)
      \<or> (sg_empfohlen A = sg_empfohlen B \<and> sg_prio A \<ge> sg_prio B))"


section \<open>Properties of the normalisation\<close>

lemma hyphen_is_sep: "is_sep (CHR ''-'')"
  by (simp add: is_sep_def)

lemma collapse_set:
  "c \<in> set (collapse s) \<Longrightarrow> c = CHR ''-'' \<or> (c \<in> set s \<and> \<not> is_sep c)"
  by (induction s rule: collapse.induct) (auto split: if_splits dest: set_dropWhileD)

lemma collapse_no_hyphen_pair: "successively no_hyphen_pair (collapse s)"
proof (induction s rule: collapse.induct)
  case 1
  show ?case by simp
next
  case (2 c cs)
  show ?case
  proof (cases "is_sep c")
    case True
    let ?d = "dropWhile is_sep cs"
    have tail: "successively no_hyphen_pair (collapse ?d)"
      using 2 True by simp
    have "collapse ?d = [] \<or> hd (collapse ?d) \<noteq> CHR ''-''"
    proof (cases ?d)
      case Nil
      show ?thesis unfolding Nil by simp
    next
      case (Cons y ys)
      then have "\<not> is_sep y"
        using hd_dropWhile[of is_sep cs] by auto
      then have "hd (collapse ?d) = y" and "y \<noteq> CHR ''-''"
        using Cons hyphen_is_sep by auto
      then show ?thesis by simp
    qed
    then show ?thesis
      using True tail by (auto simp: successively_Cons no_hyphen_pair_def)
  next
    case False
    then have "c \<noteq> CHR ''-''"
      using hyphen_is_sep by auto
    then show ?thesis
      using False 2 by (auto simp: successively_Cons no_hyphen_pair_def)
  qed
qed

lemma length_collapse: "length (collapse s) \<le> length s"
proof (induction s rule: collapse.induct)
  case 1
  show ?case by simp
next
  case (2 c cs)
  have "length (dropWhile is_sep cs) \<le> length cs"
    by (rule length_dropWhile_le)
  then show ?case
    using 2 by (cases "is_sep c") auto
qed

text \<open>\<open>strip('-')\<close> cuts a piece out of the text.\<close>

lemma strip_hyphens_take:
  "strip_hyphens s =
     take (length (dropWhile is_hyphen s)
             - length (takeWhile is_hyphen (rev (dropWhile is_hyphen s))))
          (dropWhile is_hyphen s)"
proof -
  let ?d = "dropWhile is_hyphen s"
  have "strip_hyphens s = rev (drop (length (takeWhile is_hyphen (rev ?d))) (rev ?d))"
    unfolding strip_hyphens_def by (subst dropWhile_eq_drop) simp
  then show ?thesis
    by (simp add: rev_drop)
qed

lemma strip_hyphens_piece: "\<exists>i j. strip_hyphens s = take i (drop j s)"
proof -
  have "dropWhile is_hyphen s = drop (length (takeWhile is_hyphen s)) s"
    by (rule dropWhile_eq_drop)
  then show ?thesis
    using strip_hyphens_take[of s] by metis
qed

lemma successively_piece: "successively P xs \<Longrightarrow> successively P (take i (drop j xs))"
  by (metis append_take_drop_id successively_append_iff)

lemma strip_hyphens_successively:
  assumes "successively P s"
  shows "successively P (strip_hyphens s)"
proof -
  obtain i j where "strip_hyphens s = take i (drop j s)"
    using strip_hyphens_piece by blast
  then show ?thesis
    using assms by (simp add: successively_piece)
qed

lemma strip_hyphens_set:
  assumes "c \<in> set (strip_hyphens s)"
  shows "c \<in> set s"
proof -
  obtain i j where "strip_hyphens s = take i (drop j s)"
    using strip_hyphens_piece by blast
  then have "c \<in> set (take i (drop j s))"
    using assms by simp
  then show ?thesis
    by (meson in_set_takeD in_set_dropD)
qed

lemma length_strip_hyphens: "length (strip_hyphens s) \<le> length s"
proof -
  obtain i j where "strip_hyphens s = take i (drop j s)"
    using strip_hyphens_piece by blast
  then show ?thesis by simp
qed

lemma strip_hyphens_last:
  "strip_hyphens s \<noteq> [] \<Longrightarrow> last (strip_hyphens s) \<noteq> CHR ''-''"
  unfolding strip_hyphens_def
  using hd_dropWhile[of is_hyphen "rev (dropWhile is_hyphen s)"]
  by (auto simp: last_rev is_hyphen_def)

lemma strip_hyphens_hd:
  assumes "strip_hyphens s \<noteq> []"
  shows "hd (strip_hyphens s) \<noteq> CHR ''-''"
proof -
  let ?d = "dropWhile is_hyphen s"
  let ?n = "length ?d - length (takeWhile is_hyphen (rev ?d))"
  have eq: "strip_hyphens s = take ?n ?d"
    by (rule strip_hyphens_take)
  then have "0 < ?n" and "?d \<noteq> []"
    using assms by auto
  then have "hd (strip_hyphens s) = hd ?d" and "\<not> is_hyphen (hd ?d)"
    using eq hd_dropWhile[of is_hyphen s] by simp_all
  then show ?thesis
    by (simp add: is_hyphen_def)
qed

lemma clean_domain_name_chars:
  assumes "c \<in> set (clean_domain_name tbl name)"
  shows "dns_char c"
proof -
  have "c \<in> set (collapse (strip_special (remove_suffixes None (lower (unidecode tbl name)))))"
    using assms unfolding clean_domain_name_def by (rule strip_hyphens_set)
  then have "c = CHR ''-'' \<or> (keep_char c \<and> \<not> is_sep c)"
    by (auto dest!: collapse_set simp: strip_special_def)
  then show ?thesis
    by (auto simp: dns_char_def keep_char_def is_sep_def)
qed

lemma clean_domain_name_pairs: "successively no_hyphen_pair (clean_domain_name tbl name)"
  unfolding clean_domain_name_def
  by (intro strip_hyphens_successively collapse_no_hyphen_pair)

lemma successively_nth:
  "successively P xs \<Longrightarrow> Suc i < length xs \<Longrightarrow> P (xs ! i) (xs ! Suc i)"
proof (induction xs arbitrary: i)
  case Nil
  then show ?case by simp
next
  case (Cons x xs)
  then show ?case
    by (cases i; cases xs) auto
qed

text \<open>
  Claim C10. Whatever the input, the text \<open>clean_domain_name\<close> returns consists of
  lowercase ASCII letters, digits and hyphens only, holds no two hyphens in a row, and
  neither begins nor ends with a hyphen (it may be empty).
\<close>

theorem clean_domain_name_token_shape:
  "(\<forall>c \<in> set (clean_domain_name tbl name). is_lower c \<or> is_digit c \<or> c = CHR ''-'')
   \<and> (\<forall>i. Suc i < length (clean_domain_name tbl name) \<longrightarrow>
          \<not> (clean_domain_name tbl name ! i = CHR ''-''
             \<and> clean_domain_name tbl name ! Suc i = CHR ''-''))
   \<and> (clean_domain_name tbl name \<noteq> [] \<longrightarrow>
          hd (clean_domain_name tbl name) \<noteq> CHR ''-''
          \<and> last (clean_domain_name tbl name) \<noteq> CHR ''-'')"
proof (intro conjI ballI allI impI)
  fix c
  assume "c \<in> set (clean_domain_name tbl name)"
  then show "is_lower c \<or> is_digit c \<or> c = CHR ''-''"
    using clean_domain_name_chars[of c tbl name] by (simp add: dns_char_def)
next
  fix i
  assume "Suc i < length (clean_domain_name tbl name)"
  then show "\<not> (clean_domain_name tbl name ! i = CHR ''-''
                \<and> clean_domain_name tbl name ! Suc i = CHR ''-'')"
    using successively_nth[OF clean_domain_name_pairs, of i tbl name]
    by (simp add: no_hyphen_pair_def)
next
  assume "clean_domain_name tbl name \<noteq> []"
  then show "hd (clean_domain_name tbl name) \<noteq> CHR ''-''"
    unfolding clean_domain_name_def by (rule strip_hyphens_hd)
next
  assume "clean_domain_name tbl name \<noteq> []"
  then show "last (clean_domain_name tbl name) \<noteq> CHR ''-''"
    unfolding clean_domain_name_def by (rule strip_hyphens_last)
qed

theorem clean_domain_name_token_shape_witness:
  "clean_domain_name translit_sample (to_pystr ''Foo & Bar -- GmbH'') = ''foo-bar''
   \<and> CHR ''f'' \<in> set ''foo-bar''
   \<and> (is_lower (CHR ''f'') \<or> is_digit (CHR ''f'') \<or> CHR ''f'' = CHR ''-'')
   \<and> Suc 3 < length ''foo-bar''
   \<and> \<not> (''foo-bar'' ! 3 = CHR ''-'' \<and> ''foo-bar'' ! Suc 3 = CHR ''-'')
   \<and> ''foo-bar'' \<noteq> [] \<and> hd ''foo-bar'' \<noteq> CHR ''-'' \<and> last ''foo-bar'' \<noteq> CHR ''-''"
proof -
  have e: "clean_domain_name translit_sample (to_pystr ''Foo & Bar -- GmbH'') = ''foo-bar''"
    by code_simp
  show ?thesis
    using clean_domain_name_token_shape[of translit_sample "to_pystr ''Foo & Bar -- GmbH''"]
    unfolding e by simp
qed

subsection \<open>Normalising twice\<close>

lemma suffix_match_pos: "suffix_match before s = Some n \<Longrightarrow> 0 < n \<and> n \<le> length s"
  by (auto simp: suffix_match_def find_Some_iff alt_matches_def split: if_splits)

lemma remove_suffixes_length:
  "length (remove_suffixes before s) \<le> length s
   \<and> (length (remove_suffixes before s) = length s \<longrightarrow> remove_suffixes before s = s)"
proof (induction before s rule: remove_suffixes.induct)
  case (1 before)
  show ?case by simp
next
  case (2 before c cs)
  show ?case
  proof (cases "suffix_match before (c # cs)")
    case None
    then show ?thesis using 2 by simp
  next
    case (Some n)
    then have "0 < n" and "n \<le> length (c # cs)"
      using suffix_match_pos by blast+
    moreover have "length (remove_suffixes (Some (last (take n (c # cs)))) (drop n (c # cs)))
                   \<le> length (drop n (c # cs))"
      using 2(2)[OF Some] by simp
    ultimately have "length (remove_suffixes before (c # cs)) < length (c # cs)"
      using Some by simp
    then show ?thesis by simp
  qed
qed

lemma dns_char_ascii: "dns_char c \<Longrightarrow> (of_char c :: nat) < 128"
  by (auto simp: dns_char_def is_lower_def is_digit_def)

lemma unidecode_ascii:
  "\<forall>c \<in> set s. (of_char c :: nat) < 128 \<Longrightarrow> unidecode tbl (to_pystr s) = s"
  by (induction s) (auto simp: unidecode_def to_pystr_def)

lemma dns_char_not_upper: "dns_char c \<Longrightarrow> \<not> is_upper c"
  by (auto simp: dns_char_def is_lower_def is_digit_def is_upper_def)

lemma lower_dns: "\<forall>c \<in> set s. dns_char c \<Longrightarrow> lower s = s"
  by (induction s) (auto simp: lower_def lower_char_def dns_char_not_upper)

lemma strip_special_dns: "\<forall>c \<in> set s. dns_char c \<Longrightarrow> strip_special s = s"
  by (induction s) (auto simp: strip_special_def keep_char_def dns_char_def)

lemma length_strip_special: "length (strip_special s) \<le> length s"
  by (simp add: strip_special_def)

lemma dns_char_sep: "dns_char c \<Longrightarrow> is_sep c \<longleftrightarrow> c = CHR ''-''"
  by (auto simp: dns_char_def is_sep_def is_space_def is_lower_def is_digit_def)

lemma collapse_dns:
  "\<forall>c \<in> set s. dns_char c \<Longrightarrow> successively no_hyphen_pair s \<Longrightarrow> collapse s = s"
proof (induction s)
  case Nil
  show ?case by simp
next
  case (Cons c cs)
  then have ih: "collapse cs = cs"
    by (auto simp: successively_Cons)
  show ?case
  proof (cases "is_sep c")
    case False
    then show ?thesis using ih by simp
  next
    case True
    then have c: "c = CHR ''-''"
      using Cons.prems dns_char_sep by auto
    have "dropWhile is_sep cs = cs"
    proof (cases cs)
      case Nil
      then show ?thesis by simp
    next
      case (Cons y ys)
      then have "y \<noteq> CHR ''-''" and "dns_char y"
        using Cons.prems c by (auto simp: no_hyphen_pair_def)
      then have "\<not> is_sep y"
        using dns_char_sep by blast
      then show ?thesis using Cons by simp
    qed
    then show ?thesis using True c ih by simp
  qed
qed

lemma strip_hyphens_clean:
  assumes "s = [] \<or> (hd s \<noteq> CHR ''-'' \<and> last s \<noteq> CHR ''-'')"
  shows "strip_hyphens s = s"
proof -
  have 1: "dropWhile is_hyphen s = s"
    using assms by (auto simp: dropWhile_eq_self_iff is_hyphen_def)
  have 2: "dropWhile is_hyphen (rev s) = rev s"
    using assms by (auto simp: dropWhile_eq_self_iff is_hyphen_def hd_rev)
  show ?thesis
    unfolding strip_hyphens_def 1 2 by simp
qed

text \<open>On a text that is already normalised only the removal of the legal suffixes can still
  change something.\<close>

lemma clean_domain_name_again:
  "clean_domain_name tbl (to_pystr (clean_domain_name tbl name)) =
     strip_hyphens (collapse (strip_special
       (remove_suffixes None (clean_domain_name tbl name))))"
proof -
  let ?y = "clean_domain_name tbl name"
  have chars: "\<forall>c \<in> set ?y. dns_char c"
    using clean_domain_name_chars by blast
  then have "unidecode tbl (to_pystr ?y) = ?y"
    using dns_char_ascii by (intro unidecode_ascii) blast
  moreover have "lower ?y = ?y"
    using chars by (rule lower_dns)
  ultimately show ?thesis
    by (simp add: clean_domain_name_def[of tbl "to_pystr ?y"])
qed

text \<open>
  Claim C3, as the code has it. Normalising a normalised text gives the same text exactly
  when the normalised text holds no match of the legal-suffix pattern, that is, when the
  suffix removal leaves it as it is.
\<close>

theorem clean_domain_name_twice:
  "clean_domain_name tbl (to_pystr (clean_domain_name tbl name)) = clean_domain_name tbl name
   \<longleftrightarrow> remove_suffixes None (clean_domain_name tbl name) = clean_domain_name tbl name"
proof
  let ?y = "clean_domain_name tbl name"
  assume same: "remove_suffixes None ?y = ?y"
  have chars: "\<forall>c \<in> set ?y. dns_char c"
    using clean_domain_name_chars by blast
  have "strip_special ?y = ?y"
    using chars by (rule strip_special_dns)
  moreover have "collapse ?y = ?y"
    using chars clean_domain_name_pairs by (rule collapse_dns)
  moreover have "strip_hyphens ?y = ?y"
  proof (rule strip_hyphens_clean)
    show "?y = [] \<or> (hd ?y \<noteq> CHR ''-'' \<and> last ?y \<noteq> CHR ''-'')"
      unfolding clean_domain_name_def using strip_hyphens_hd strip_hyphens_last by blast
  qed
  ultimately show "clean_domain_name tbl (to_pystr ?y) = ?y"
    by (simp add: clean_domain_name_again same)
next
  let ?y = "clean_domain_name tbl name"
  let ?r = "remove_suffixes None ?y"
  assume idem: "clean_domain_name tbl (to_pystr ?y) = ?y"
  have "length (strip_hyphens (collapse (strip_special ?r))) \<le> length (collapse (strip_special ?r))"
    by (rule length_strip_hyphens)
  also have "\<dots> \<le> length (strip_special ?r)"
    by (rule length_collapse)
  also have "\<dots> \<le> length ?r"
    by (rule length_strip_special)
  finally have "length ?y \<le> length ?r"
    using idem by (simp add: clean_domain_name_again)
  then show "?r = ?y"
    using remove_suffixes_length[of None ?y] by simp
qed

theorem clean_domain_name_twice_witness:
  "remove_suffixes None (clean_domain_name translit_sample (to_pystr ''Foo & Bar -- GmbH''))
     = clean_domain_name translit_sample (to_pystr ''Foo & Bar -- GmbH'')
   \<and> clean_domain_name translit_sample
        (to_pystr (clean_domain_name translit_sample (to_pystr ''Foo & Bar -- GmbH'')))
     = clean_domain_name translit_sample (to_pystr ''Foo & Bar -- GmbH'')"
proof -
  have e: "clean_domain_name translit_sample (to_pystr ''Foo & Bar -- GmbH'') = ''foo-bar''"
    by code_simp
  have r: "remove_suffixes None ''foo-bar'' = ''foo-bar''"
    by code_simp
  show ?thesis
    using clean_domain_name_twice[of translit_sample "to_pystr ''Foo & Bar -- GmbH''"]
    unfolding e using r by simp
qed

text \<open>
  Claim C3, as the specification states it, fails: \<open>a.g\<close> is normalised to \<open>ag\<close> (the dot
  goes after the suffix removal has looked at the text), and \<open>ag\<close> is a legal suffix, so
  the second normalisation gives the empty text.
\<close>

theorem clean_domain_name_not_idempotent:
  "clean_domain_name translit_sample (to_pystr ''a.g'') = ''ag''
   \<and> clean_domain_name translit_sample
        (to_pystr (clean_domain_name translit_sample (to_pystr ''a.g''))) = ''''
   \<and> clean_domain_name translit_sample
        (to_pystr (clean_domain_name translit_sample (to_pystr ''a.g'')))
      \<noteq> clean_domain_name translit_sample (to_pystr ''a.g'')"
  by code_simp

section \<open>Properties of the suggestion engine\<close>

lemma tld_loop_eq:
  "tld_loop m b v ts acc = acc @ take (nat m - length acc) (map (make_suggestion b v) ts)"
proof (induction ts arbitrary: acc)
  case Nil
  show ?case by simp
next
  case (Cons t ts)
  show ?case
  proof (cases "int (length acc) \<ge> m")
    case True
    then have "nat m - length acc = 0" by linarith
    then show ?thesis using True by simp
  next
    case False
    then have "0 < nat m - length acc" by linarith
    then obtain k where k: "nat m - length acc = Suc k"
      using gr0_implies_Suc by blast
    then have "nat m - length (acc @ [make_suggestion b v t]) = k" by simp
    then show ?thesis
      using False Cons[of "acc @ [make_suggestion b v t]"] k by simp
  qed
qed

lemma variation_loop_eq:
  "variation_loop m b vs ts acc = acc @ take (nat m - length acc) (candidates b vs ts)"
proof (induction vs arbitrary: acc)
  case Nil
  show ?case by (simp add: candidates_def)
next
  case (Cons v vs)
  let ?row = "map (make_suggestion b v) ts"
  let ?acc' = "acc @ take (nat m - length acc) ?row"
  have c: "candidates b (v # vs) ts = ?row @ candidates b vs ts"
    by (simp add: candidates_def)
  have tl: "tld_loop m b v ts acc = ?acc'"
    by (rule tld_loop_eq)
  show ?case
  proof (cases "int (length ?acc') \<ge> m")
    case True
    then have "nat m - length acc \<le> length ?row"
      by (simp add: min_def split: if_splits; linarith)
    then show ?thesis
      using True by (simp add: tld_loop_eq Let_def c)
  next
    case False
    then have lt: "length ?row < nat m - length acc"
      by (simp add: min_def split: if_splits; linarith)
    then have t: "take (nat m - length acc) ?row = ?row" by simp
    have "variation_loop m b (v # vs) ts acc = variation_loop m b vs ts ?acc'"
      unfolding variation_loop.simps tl Let_def using False by (simp only: if_False)
    also have "\<dots> = ?acc' @ take (nat m - length ?acc') (candidates b vs ts)"
      by (rule Cons)
    also have "\<dots> = acc @ take (nat m - length acc) (candidates b (v # vs) ts)"
      using lt by (simp add: c t)
    finally show ?thesis .
  qed
qed

lemma length_candidates: "length (candidates b vs ts) = length vs * length ts"
  by (induction vs) (simp_all add: candidates_def)

lemma set_candidates:
  "set (candidates b vs ts) = (\<lambda>(v, t). make_suggestion b v t) ` (set vs \<times> set ts)"
  by (auto simp: candidates_def)

lemma slice_to_short: "int (length xs) \<le> max 0 n \<Longrightarrow> slice_to n xs = xs"
  by (auto simp: slice_to_def max_def split: if_splits)

text \<open>What \<open>generate_suggestions\<close> returns: the first \<open>max_suggestions\<close> combinations,
  sorted.\<close>

lemma generate_suggestions_eq:
  "generate_suggestions tbl db base land branche m =
     sort_key suggestion_key
       (take (nat m) (candidates (clean_domain_name tbl base)
          (take 5 (generate_variations (clean_domain_name tbl base) branche)) (db land 10)))"
proof -
  let ?c = "candidates (clean_domain_name tbl base)
          (take 5 (generate_variations (clean_domain_name tbl base) branche)) (db land 10)"
  have "int (length (sort_key suggestion_key (take (nat m) ?c))) \<le> max 0 m" by simp
  then have "slice_to m (sort_key suggestion_key (take (nat m) ?c))
             = sort_key suggestion_key (take (nat m) ?c)"
    by (rule slice_to_short)
  then show ?thesis
    by (simp add: generate_suggestions_def Let_def variation_loop_eq)
qed

lemma name_part_make_suggestion: "name_part (make_suggestion b v t) = v"
  by (simp add: name_part_def make_suggestion_def)

lemma suggestion_key_ranked: "suggestion_key A \<le> suggestion_key B \<Longrightarrow> ranked_before A B"
  by (auto simp: suggestion_key_def ranked_before_def)

lemma sorted_key_ranked: "sorted (map suggestion_key xs) \<Longrightarrow> sorted_wrt ranked_before xs"
  by (induction xs) (auto intro: suggestion_key_ranked)

text \<open>
  Claim C4. A returned suggestion is recommended exactly when its name part is the
  normalised base and the priority of its TLD is at least 90. The suggestion is built from
  a fetched TLD row, whose name and priority it carries.
\<close>

theorem generate_suggestions_recommended:
  assumes "s \<in> set (generate_suggestions tbl db base land branche m)"
  shows "(sg_empfohlen s \<longleftrightarrow> name_part s = clean_domain_name tbl base \<and> sg_prio s \<ge> 90)
         \<and> (\<exists>t \<in> set (db land 10).
               sg_tld s = tld t \<and> sg_prio s = prio t
               \<and> sg_domain s = name_part s @ ''.'' @ tld t)"
proof -
  from assms obtain v t
    where t: "t \<in> set (db land 10)"
      and s: "s = make_suggestion (clean_domain_name tbl base) v t"
    unfolding generate_suggestions_eq by (auto simp: set_candidates dest!: in_set_takeD)
  have np: "name_part s = v"
    using s by (simp add: name_part_make_suggestion)
  show ?thesis
    using t unfolding np by (auto simp: s make_suggestion_def)
qed

text \<open>The base \<open>muller\<close> on the TLD of priority 90 is recommended, on the TLD of priority 89
  it is not, and a variation on the TLD of priority 100 is not.\<close>

theorem generate_suggestions_recommended_witness:
  "make_suggestion ''muller'' ''muller'' tld_com
      \<in> set (generate_suggestions translit_sample tlds_sample
                (to_pystr ''M'' @ [252] @ to_pystr ''ller GmbH'') ''DE'' None 10)
   \<and> sg_empfohlen (make_suggestion ''muller'' ''muller'' tld_com)
   \<and> sg_prio (make_suggestion ''muller'' ''muller'' tld_com) = 90
   \<and> make_suggestion ''muller'' ''muller'' tld_net
      \<in> set (generate_suggestions translit_sample tlds_sample
                (to_pystr ''M'' @ [252] @ to_pystr ''ller GmbH'') ''DE'' None 10)
   \<and> \<not> sg_empfohlen (make_suggestion ''muller'' ''muller'' tld_net)
   \<and> sg_prio (make_suggestion ''muller'' ''muller'' tld_net) = 89
   \<and> make_suggestion ''muller'' ''muller-online'' tld_de
      \<in> set (generate_suggestions translit_sample tlds_sample
                (to_pystr ''M'' @ [252] @ to_pystr ''ller GmbH'') ''DE'' None 10)
   \<and> \<not> sg_empfohlen (make_suggestion ''muller'' ''muller-online'' tld_de)"
proof -
  let ?out = "generate_suggestions translit_sample tlds_sample
                (to_pystr ''M'' @ [252] @ to_pystr ''ller GmbH'') ''DE'' None 10"
  have b: "clean_domain_name translit_sample (to_pystr ''M'' @ [252] @ to_pystr ''ller GmbH'')
           = ''muller''"
    by code_simp
  have m1: "make_suggestion ''muller'' ''muller'' tld_com \<in> set ?out"
    by code_simp
  have m2: "make_suggestion ''muller'' ''muller'' tld_net \<in> set ?out"
    by code_simp
  have m3: "make_suggestion ''muller'' ''muller-online'' tld_de \<in> set ?out"
    by code_simp
  have n1: "name_part (make_suggestion ''muller'' ''muller'' tld_com) = ''muller''"
    and n2: "name_part (make_suggestion ''muller'' ''muller'' tld_net) = ''muller''"
    and n3: "name_part (make_suggestion ''muller'' ''muller-online'' tld_de) = ''muller-online''"
    by (simp_all add: name_part_make_suggestion)
  have p: "sg_prio (make_suggestion ''muller'' ''muller'' tld_com) = 90"
    "sg_prio (make_suggestion ''muller'' ''muller'' tld_net) = 89"
    "sg_prio (make_suggestion ''muller'' ''muller-online'' tld_de) = 100"
    by (simp_all add: make_suggestion_def tld_com_def tld_net_def tld_de_def)
  show ?thesis
    using generate_suggestions_recommended[OF m1] generate_suggestions_recommended[OF m2]
      generate_suggestions_recommended[OF m3] m1 m2 m3
    unfolding b n1 n2 n3 p by simp
qed

text \<open>
  Claim C5. Of two returned suggestions the earlier one is recommended and the later one
  not, or both have the same flag and the earlier one has at least the priority of the
  later one. The output is sorted by the key (not recommended, negated priority), and
  suggestions of equal key keep the order in which the loops created them.
\<close>

theorem generate_suggestions_ranked:
  "(\<forall>i j. i < j \<and> j < length (generate_suggestions tbl db base land branche m) \<longrightarrow>
       ranked_before (generate_suggestions tbl db base land branche m ! i)
                     (generate_suggestions tbl db base land branche m ! j))
   \<and> sorted (map suggestion_key (generate_suggestions tbl db base land branche m))
   \<and> filter (\<lambda>s. suggestion_key s = k) (generate_suggestions tbl db base land branche m)
     = filter (\<lambda>s. suggestion_key s = k)
         (variation_loop m (clean_domain_name tbl base)
            (take 5 (generate_variations (clean_domain_name tbl base) branche)) (db land 10) [])"
proof -
  have 1: "sorted (map suggestion_key (generate_suggestions tbl db base land branche m))"
    unfolding generate_suggestions_eq by (rule sorted_sort_key)
  have 2: "filter (\<lambda>s. suggestion_key s = k) (generate_suggestions tbl db base land branche m)
     = filter (\<lambda>s. suggestion_key s = k)
         (variation_loop m (clean_domain_name tbl base)
            (take 5 (generate_variations (clean_domain_name tbl base) branche)) (db land 10) [])"
    unfolding generate_suggestions_eq variation_loop_eq by (simp add: sort_key_stable)
  have "sorted_wrt ranked_before (generate_suggestions tbl db base land branche m)"
    using 1 by (rule sorted_key_ranked)
  then have 3: "\<forall>i j. i < j \<and> j < length (generate_suggestions tbl db base land branche m) \<longrightarrow>
       ranked_before (generate_suggestions tbl db base land branche m ! i)
                     (generate_suggestions tbl db base land branche m ! j)"
    by (simp add: sorted_wrt_iff_nth_less)
  show ?thesis
    using 1 2 3 by blast
qed

text \<open>With five suggestions asked for, the variation on the best TLD (created third) comes
  behind both recommended ones and before the base on the TLD of priority 89.\<close>

theorem generate_suggestions_ranked_witness:
  "map sg_domain (generate_suggestions translit_sample tlds_sample
                    (to_pystr ''M'' @ [252] @ to_pystr ''ller GmbH'') ''DE'' None 5)
     = [''muller.de'', ''muller.com'', ''muller-online.de'', ''muller-online.com'', ''muller.net'']
   \<and> (1::nat) < 4
   \<and> 4 < length (generate_suggestions translit_sample tlds_sample
                    (to_pystr ''M'' @ [252] @ to_pystr ''ller GmbH'') ''DE'' None 5)
   \<and> ranked_before
        (generate_suggestions translit_sample tlds_sample
           (to_pystr ''M'' @ [252] @ to_pystr ''ller GmbH'') ''DE'' None 5 ! 1)
        (generate_suggestions translit_sample tlds_sample
           (to_pystr ''M'' @ [252] @ to_pystr ''ller GmbH'') ''DE'' None 5 ! 4)"
proof -
  let ?out = "generate_suggestions translit_sample tlds_sample
                (to_pystr ''M'' @ [252] @ to_pystr ''ller GmbH'') ''DE'' None 5"
  have d: "map sg_domain ?out
     = [''muller.de'', ''muller.com'', ''muller-online.de'', ''muller-online.com'', ''muller.net'']"
    by code_simp
  then have "length (map sg_domain ?out) = 5" by simp
  then have l: "length ?out = 5" by simp
  show ?thesis
    using generate_suggestions_ranked[of translit_sample tlds_sample
        "to_pystr ''M'' @ [252] @ to_pystr ''ller GmbH''" "''DE''" None 5] d l
    by simp
qed

text \<open>
  Claim C6. The number of suggestions returned is the smaller of the number of combinations
  (the first five variations at most, times the fetched TLD rows) and \<open>max_suggestions\<close>;
  every suggestion returned combines one of the first five variations with a fetched row.
  \<open>max_suggestions\<close> is a Python integer: \<open>nat\<close> reads a limit of 0 or more as it is, and
  a negative one, which the request schema does not admit, as 0.
\<close>

theorem generate_suggestions_length:
  "length (generate_suggestions tbl db base land branche max_suggestions) =
     min (min 5 (length (generate_variations (clean_domain_name tbl base) branche))
            * length (db land 10))
         (nat max_suggestions)
   \<and> set (generate_suggestions tbl db base land branche max_suggestions)
       \<subseteq> (\<lambda>(v, t). make_suggestion (clean_domain_name tbl base) v t) `
            (set (take 5 (generate_variations (clean_domain_name tbl base) branche))
             \<times> set (db land 10))"
  unfolding generate_suggestions_eq
  by (auto simp: length_candidates min.commute set_candidates[symmetric] dest: in_set_takeD)

text \<open>Four variations and three TLD rows give twelve combinations: a limit of 5 gives 5
  suggestions, a limit of 50 gives 12.\<close>

theorem generate_suggestions_length_witness:
  "length (generate_variations ''muller'' None) = 4
   \<and> length (tlds_sample ''DE'' 10) = 3
   \<and> length (generate_suggestions translit_sample tlds_sample
               (to_pystr ''M'' @ [252] @ to_pystr ''ller GmbH'') ''DE'' None 5) = 5
   \<and> length (generate_suggestions translit_sample tlds_sample
               (to_pystr ''M'' @ [252] @ to_pystr ''ller GmbH'') ''DE'' None 50) = 12"
proof -
  have b: "clean_domain_name translit_sample (to_pystr ''M'' @ [252] @ to_pystr ''ller GmbH'')
           = ''muller''"
    by code_simp
  have v: "length (generate_variations ''muller'' None) = 4"
    by code_simp
  have t: "length (tlds_sample ''DE'' 10) = 3"
    by code_simp
  show ?thesis
    using generate_suggestions_length[of translit_sample tlds_sample
        "to_pystr ''M'' @ [252] @ to_pystr ''ller GmbH''" "''DE''" None 5]
      generate_suggestions_length[of translit_sample tlds_sample
        "to_pystr ''M'' @ [252] @ to_pystr ''ller GmbH''" "''DE''" None 50]
    unfolding b v t by simp
qed


section \<open>Properties of the registrar adapter\<close>

lemma call_api_world:
  "snd (call_api env w m p) = w\<lparr> rpc_calls := rpc_calls w @ [(m, p)] \<rparr>"
  by (simp add: call_api_def Let_def split: http_outcome.splits json.splits option.splits)

lemma call_api_failed:
  "remote env (length (rpc_calls w)) (m, p) = Failed msg
   \<Longrightarrow> fst (call_api env w m p) = Inl (TransportError msg)"
  by (simp add: call_api_def Let_def)

lemma call_api_answered:
  "remote env (length (rpc_calls w)) (m, p) = Answered (JObj kvs)
   \<Longrightarrow> map_of kvs ''error'' = None \<Longrightarrow> map_of kvs ''result'' = Some res
   \<Longrightarrow> fst (call_api env w m p) = Inr res"
  by (simp add: call_api_def Let_def)

lemma login_world:
  "snd (snd (login env self w)) =
     w\<lparr> rpc_calls := rpc_calls w
            @ [(''account.login'',
                [(''user'', JStr (username self)), (''pass'', JStr (password self))])] \<rparr>"
proof -
  let ?p = "[(''user'', JStr (username self)), (''pass'', JStr (password self))]"
  obtain r w1 where c: "call_api env w ''account.login'' ?p = (r, w1)"
    by (cases "call_api env w ''account.login'' ?p")
  have "w1 = w\<lparr> rpc_calls := rpc_calls w @ [(''account.login'', ?p)] \<rparr>"
    using call_api_world[of env w "''account.login''" ?p] c by simp
  then show ?thesis
    by (simp add: login_def c split: sum.splits)
qed

lemma logout_world:
  "snd (snd (logout env self w)) =
     (if truthy (session_id self)
      then w\<lparr> rpc_calls := rpc_calls w @ [(''account.logout'', [])] \<rparr> else w)"
proof (cases "truthy (session_id self)")
  case False
  then show ?thesis by (simp add: logout_def)
next
  case True
  obtain r w1 where c: "call_api env w ''account.logout'' [] = (r, w1)"
    by (cases "call_api env w ''account.logout'' []")
  have "w1 = w\<lparr> rpc_calls := rpc_calls w @ [(''account.logout'', [])] \<rparr>"
    using call_api_world[of env w "''account.logout''" "[]"] c by simp
  then show ?thesis
    using True by (simp add: logout_def c split: sum.splits)
qed

lemma logout_session:
  "truthy (session_id self) \<Longrightarrow> session_id (fst (snd (logout env self w))) = JNull"
  by (simp add: logout_def split: prod.splits sum.splits)

lemma logout_result:
  "truthy (session_id self) \<Longrightarrow>
     fst (logout env self w) =
       (case fst (call_api env w ''account.logout'' []) of Inl e \<Rightarrow> Inl e | Inr x \<Rightarrow> Inr ())"
  by (simp add: logout_def split: prod.splits sum.splits)

lemma logout_idle: "\<not> truthy (session_id self) \<Longrightarrow> logout env self w = (Inr (), self, w)"
  by (simp add: logout_def)

lemma check_reply_refused:
  "\<not> py_eq_num (case map_of res ''code'' of Some c \<Rightarrow> c | None \<Rightarrow> JNull) 1000
   \<Longrightarrow> check_reply domain (JObj res) =
        Inr (error_dict domain (J (case map_of res ''msg'' of Some m \<Rightarrow> m | None \<Rightarrow> JNull)))"
  by (simp add: check_reply_def)

lemma check_reply_domain: "check_reply domain result = Inr d \<Longrightarrow> cd_domain d = domain"
  by (auto simp: check_reply_def error_dict_def Let_def split: sum.splits if_splits)

text \<open>When a session is there, or the login on the way succeeds, \<open>check_domain\<close> returns
  a dict.\<close>

lemma check_domain_after_session:
  assumes "ensure_session env self w = (Inr sid, self1, w1)"
  shows "\<exists>d. check_domain env self w domain
               = (Inr d, self1, snd (call_api env w1 ''domain.check'' [(''domain'', JStr domain)]))
             \<and> cd_domain d = domain
             \<and> d = (case fst (call_api env w1 ''domain.check'' [(''domain'', JStr domain)]) of
                      Inl e \<Rightarrow> error_dict domain (StrOf e)
                    | Inr result \<Rightarrow>
                        (case check_reply domain result of
                           Inl e \<Rightarrow> error_dict domain (StrOf e)
                         | Inr d' \<Rightarrow> d'))"
proof -
  obtain r w2 where c: "call_api env w1 ''domain.check'' [(''domain'', JStr domain)] = (r, w2)"
    by (cases "call_api env w1 ''domain.check'' [(''domain'', JStr domain)]")
  show ?thesis
    using assms c check_reply_domain
    by (auto simp: check_domain_def error_dict_def split: sum.splits)
qed

text \<open>
  Claim C1, as the code has it. When the adapter holds a session, or the login that
  \<open>check_domain\<close> performs first succeeds, \<open>check_domain\<close> returns a dict for the domain:
  a transport failure of the check call, and any other exception of the call, gives the
  dict with status \<open>error\<close> and the exception's text, and so does an exception raised
  while the answer is read; an answer whose code is not 1000 gives the dict with status
  \<open>error\<close> and the remote message. When there is no session
  and the login fails, the exception of the login leaves \<open>check_domain\<close>.
\<close>

theorem check_domain_outcome:
  "(\<forall>sid self1 w1. ensure_session env self w = (Inr sid, self1, w1) \<longrightarrow>
      (\<exists>d. fst (check_domain env self w domain) = Inr d \<and> cd_domain d = domain
         \<and> (\<forall>msg. remote env (length (rpc_calls w1)) (''domain.check'', [(''domain'', JStr domain)])
                     = Failed msg \<longrightarrow>
               d = \<lparr> cd_domain = domain, cd_avail = False, cd_status = ''error'',
                     cd_price = None, cd_error = Some (StrOf (TransportError msg)) \<rparr>)
         \<and> (\<forall>e. fst (call_api env w1 ''domain.check'' [(''domain'', JStr domain)]) = Inl e \<longrightarrow>
               d = \<lparr> cd_domain = domain, cd_avail = False, cd_status = ''error'',
                     cd_price = None, cd_error = Some (StrOf e) \<rparr>)
         \<and> (\<forall>result e. fst (call_api env w1 ''domain.check'' [(''domain'', JStr domain)])
                          = Inr result
                        \<and> check_reply domain result = Inl e \<longrightarrow>
               d = \<lparr> cd_domain = domain, cd_avail = False, cd_status = ''error'',
                     cd_price = None, cd_error = Some (StrOf e) \<rparr>)
         \<and> (\<forall>res. fst (call_api env w1 ''domain.check'' [(''domain'', JStr domain)])
                     = Inr (JObj res)
                   \<and> \<not> py_eq_num (case map_of res ''code'' of Some c \<Rightarrow> c | None \<Rightarrow> JNull) 1000
                   \<longrightarrow>
               d = \<lparr> cd_domain = domain, cd_avail = False, cd_status = ''error'',
                     cd_price = None,
                     cd_error = Some (J (case map_of res ''msg'' of
                                           Some m \<Rightarrow> m | None \<Rightarrow> JNull)) \<rparr>)))
   \<and> (\<forall>e. fst (ensure_session env self w) = Inl e \<longrightarrow>
          fst (check_domain env self w domain) = Inl e)"
proof (intro conjI allI impI)
  fix sid self1 w1
  assume s: "ensure_session env self w = (Inr sid, self1, w1)"
  let ?call = "call_api env w1 ''domain.check'' [(''domain'', JStr domain)]"
  obtain d where d: "check_domain env self w domain = (Inr d, self1, snd ?call)"
    and dom: "cd_domain d = domain"
    and val: "d = (case fst ?call of
                      Inl e \<Rightarrow> error_dict domain (StrOf e)
                    | Inr result \<Rightarrow>
                        (case check_reply domain result of
                           Inl e \<Rightarrow> error_dict domain (StrOf e)
                         | Inr d' \<Rightarrow> d'))"
    using check_domain_after_session[OF s, of domain] by blast
  have exn: "\<And>e. fst ?call = Inl e \<Longrightarrow> d = error_dict domain (StrOf e)"
    using val by simp
  show "\<exists>d. fst (check_domain env self w domain) = Inr d \<and> cd_domain d = domain
         \<and> (\<forall>msg. remote env (length (rpc_calls w1)) (''domain.check'', [(''domain'', JStr domain)])
                     = Failed msg \<longrightarrow>
               d = \<lparr> cd_domain = domain, cd_avail = False, cd_status = ''error'',
                     cd_price = None, cd_error = Some (StrOf (TransportError msg)) \<rparr>)
         \<and> (\<forall>e. fst (call_api env w1 ''domain.check'' [(''domain'', JStr domain)]) = Inl e \<longrightarrow>
               d = \<lparr> cd_domain = domain, cd_avail = False, cd_status = ''error'',
                     cd_price = None, cd_error = Some (StrOf e) \<rparr>)
         \<and> (\<forall>result e. fst (call_api env w1 ''domain.check'' [(''domain'', JStr domain)])
                          = Inr result
                        \<and> check_reply domain result = Inl e \<longrightarrow>
               d = \<lparr> cd_domain = domain, cd_avail = False, cd_status = ''error'',
                     cd_price = None, cd_error = Some (StrOf e) \<rparr>)
         \<and> (\<forall>res. fst (call_api env w1 ''domain.check'' [(''domain'', JStr domain)])
                     = Inr (JObj res)
                   \<and> \<not> py_eq_num (case map_of res ''code'' of Some c \<Rightarrow> c | None \<Rightarrow> JNull) 1000
                   \<longrightarrow>
               d = \<lparr> cd_domain = domain, cd_avail = False, cd_status = ''error'',
                     cd_price = None,
                     cd_error = Some (J (case map_of res ''msg'' of
                                           Some m \<Rightarrow> m | None \<Rightarrow> JNull)) \<rparr>)"
  proof (intro exI[of _ d] conjI allI impI)
    show "fst (check_domain env self w domain) = Inr d" using d by simp
    show "cd_domain d = domain" by (rule dom)
  next
    fix msg
    assume "remote env (length (rpc_calls w1)) (''domain.check'', [(''domain'', JStr domain)])
            = Failed msg"
    then have "fst ?call = Inl (TransportError msg)" by (rule call_api_failed)
    then show "d = \<lparr> cd_domain = domain, cd_avail = False, cd_status = ''error'',
                     cd_price = None, cd_error = Some (StrOf (TransportError msg)) \<rparr>"
      using exn by (simp add: error_dict_def)
  next
    fix e
    assume "fst ?call = Inl e"
    then show "d = \<lparr> cd_domain = domain, cd_avail = False, cd_status = ''error'',
                     cd_price = None, cd_error = Some (StrOf e) \<rparr>"
      using exn by (simp add: error_dict_def)
  next
    fix result e
    assume "fst ?call = Inr result \<and> check_reply domain result = Inl e"
    then show "d = \<lparr> cd_domain = domain, cd_avail = False, cd_status = ''error'',
                     cd_price = None, cd_error = Some (StrOf e) \<rparr>"
      using val by (simp add: error_dict_def)
  next
    fix res
    assume a: "fst ?call = Inr (JObj res)
        \<and> \<not> py_eq_num (case map_of res ''code'' of Some c \<Rightarrow> c | None \<Rightarrow> JNull) 1000"
    then have "check_reply domain (JObj res) =
        Inr (error_dict domain (J (case map_of res ''msg'' of Some m \<Rightarrow> m | None \<Rightarrow> JNull)))"
      using check_reply_refused by blast
    then show "d = \<lparr> cd_domain = domain, cd_avail = False, cd_status = ''error'',
                     cd_price = None,
                     cd_error = Some (J (case map_of res ''msg'' of
                                           Some m \<Rightarrow> m | None \<Rightarrow> JNull)) \<rparr>"
      using val a by (simp add: error_dict_def)
  qed
next
  fix e
  assume "fst (ensure_session env self w) = Inl e"
  then show "fst (check_domain env self w domain) = Inl e"
    by (cases "ensure_session env self w") (simp add: check_domain_def)
qed

text \<open>With the sample registrar: the check of \<open>down.de\<close> times out and the check of
  \<open>odd.de\<close> is answered with code 2303; both give an error dict. When the registrar cannot
  be reached, the login fails and its exception leaves \<open>check_domain\<close>.\<close>

theorem check_domain_outcome_witness:
  "fst (ensure_session env_up (INWXService env_up) world_sample) = Inr (JStr ''s1'')
   \<and> fst (check_domain env_up (INWXService env_up) world_sample ''down.de'')
       = Inr \<lparr> cd_domain = ''down.de'', cd_avail = False, cd_status = ''error'',
               cd_price = None, cd_error = Some (StrOf (TransportError ''timeout'')) \<rparr>
   \<and> fst (check_domain env_up (INWXService env_up) world_sample ''odd.de'')
       = Inr \<lparr> cd_domain = ''odd.de'', cd_avail = False, cd_status = ''error'',
               cd_price = None, cd_error = Some (J (JStr ''Object does not exist'')) \<rparr>
   \<and> fst (ensure_session env_down (INWXService env_down) world_sample)
       = Inl (TransportError ''connection refused'')
   \<and> fst (check_domain env_down (INWXService env_down) world_sample ''down.de'')
       = Inl (TransportError ''connection refused'')"
proof -
  obtain self1 w1
    where s: "ensure_session env_up (INWXService env_up) world_sample = (Inr (JStr ''s1''), self1, w1)"
      and n: "length (rpc_calls w1) = 1"
  proof -
    have "fst (ensure_session env_up (INWXService env_up) world_sample) = Inr (JStr ''s1'')"
      and "length (rpc_calls (snd (snd (ensure_session env_up (INWXService env_up) world_sample)))) = 1"
      by code_simp+
    then show ?thesis
      using that by (cases "ensure_session env_up (INWXService env_up) world_sample") auto
  qed
  have r1: "remote env_up 1 (''domain.check'', [(''domain'', JStr ''down.de'')]) = Failed ''timeout''"
    by code_simp
  have c2: "fst (call_api env_up w1 ''domain.check'' [(''domain'', JStr ''odd.de'')])
            = Inr (JObj [(''code'', JNum 2303), (''msg'', JStr ''Object does not exist'')])"
  proof -
    have "remote env_up (length (rpc_calls w1)) (''domain.check'', [(''domain'', JStr ''odd.de'')])
          = Answered (JObj [(''result'',
               JObj [(''code'', JNum 2303), (''msg'', JStr ''Object does not exist'')])])"
      unfolding n by code_simp
    then show ?thesis
      by (rule call_api_answered) simp_all
  qed
  have d: "fst (ensure_session env_down (INWXService env_down) world_sample)
           = Inl (TransportError ''connection refused'')"
    by code_simp
  have t1: "fst (check_domain env_up (INWXService env_up) world_sample ''down.de'')
       = Inr \<lparr> cd_domain = ''down.de'', cd_avail = False, cd_status = ''error'',
               cd_price = None, cd_error = Some (StrOf (TransportError ''timeout'')) \<rparr>"
    using check_domain_outcome[of env_up "INWXService env_up" world_sample "''down.de''"] s r1 n
    by auto
  have t2: "fst (check_domain env_up (INWXService env_up) world_sample ''odd.de'')
       = Inr \<lparr> cd_domain = ''odd.de'', cd_avail = False, cd_status = ''error'',
               cd_price = None, cd_error = Some (J (JStr ''Object does not exist'')) \<rparr>"
    using check_domain_outcome[of env_up "INWXService env_up" world_sample "''odd.de''"] s c2
    by auto
  have t3: "fst (check_domain env_down (INWXService env_down) world_sample ''down.de'')
       = Inl (TransportError ''connection refused'')"
    using check_domain_outcome[of env_down "INWXService env_down" world_sample "''down.de''"] d
    by blast
  show ?thesis
    using s t1 t2 d t3 by simp
qed

text \<open>
  Claim C1, as the specification states it, fails: with no session and a registrar that
  cannot be reached, the login before the \<open>try\<close> block raises, and \<open>check_domain\<close>
  returns no dict.
\<close>

theorem check_domain_raises:
  "session_id (INWXService env_down) = JNull
   \<and> fst (check_domain env_down (INWXService env_down) world_sample ''example.de'')
       = Inl (TransportError ''connection refused'')"
  by code_simp


subsection \<open>The session scope\<close>

lemma async_with_entered:
  assumes "aenter env self w = (Inr (), self1, w1)" and "body self1 w1 = (r, self2, w2)"
  shows "async_with env self w body =
           (case fst (logout env self2 w2) of Inl e \<Rightarrow> Inl e | Inr u \<Rightarrow> r,
            fst (snd (logout env self2 w2)), snd (snd (logout env self2 w2)))"
  using assms by (cases "logout env self2 w2") (auto simp: async_with_def aexit_def split: sum.splits)

text \<open>
  Claim C2, as the code has it. When the login at the entry of the scope has succeeded,
  every way out of the body, a value or an exception, runs the logout once: if the adapter
  holds a session id, exactly one \<open>account.logout\<close> call is sent and the session id is
  cleared, whether the call succeeds or not; if it holds none, nothing is sent. When the
  call succeeds, the scope ends as the body ended, with its value or its exception. When
  the call fails, the exception of the call leaves the scope, in place of what the body
  gave. When the login at the entry fails, its exception leaves the scope, and neither the
  body nor the logout runs.
\<close>

theorem async_with_exit:
  "(\<forall>self1 w1 r self2 w2.
       aenter env self w = (Inr (), self1, w1) \<and> body self1 w1 = (r, self2, w2) \<longrightarrow>
         (truthy (session_id self2) \<longrightarrow>
            rpc_calls (snd (snd (async_with env self w body)))
              = rpc_calls w2 @ [(''account.logout'', [])]
            \<and> session_id (fst (snd (async_with env self w body))) = JNull
            \<and> (\<forall>x. fst (call_api env w2 ''account.logout'' []) = Inr x \<longrightarrow>
                   fst (async_with env self w body) = r)
            \<and> (\<forall>e. fst (call_api env w2 ''account.logout'' []) = Inl e \<longrightarrow>
                   fst (async_with env self w body) = Inl e))
         \<and> (\<not> truthy (session_id self2) \<longrightarrow> async_with env self w body = (r, self2, w2)))
   \<and> (\<forall>e self1 w1. aenter env self w = (Inl e, self1, w1) \<longrightarrow>
          async_with env self w body = (Inl e, self1, w1))"
proof (intro conjI allI impI)
  fix self1 w1 r self2 w2
  assume a: "aenter env self w = (Inr (), self1, w1) \<and> body self1 w1 = (r, self2, w2)"
  then have eq: "async_with env self w body =
           (case fst (logout env self2 w2) of Inl e \<Rightarrow> Inl e | Inr u \<Rightarrow> r,
            fst (snd (logout env self2 w2)), snd (snd (logout env self2 w2)))"
    using async_with_entered by blast
  {
    assume t: "truthy (session_id self2)"
    show "rpc_calls (snd (snd (async_with env self w body)))
              = rpc_calls w2 @ [(''account.logout'', [])]"
      using t by (simp add: eq logout_world)
    show "session_id (fst (snd (async_with env self w body))) = JNull"
      using t by (simp add: eq logout_session)
    {
      fix x
      assume "fst (call_api env w2 ''account.logout'' []) = Inr x"
      then show "fst (async_with env self w body) = r"
        using t by (simp add: eq logout_result)
    }
    {
      fix e
      assume "fst (call_api env w2 ''account.logout'' []) = Inl e"
      then show "fst (async_with env self w body) = Inl e"
        using t by (simp add: eq logout_result)
    }
  }
  {
    assume "\<not> truthy (session_id self2)"
    then show "async_with env self w body = (r, self2, w2)"
      by (simp add: eq logout_idle)
  }
next
  fix e self1 w1
  assume "aenter env self w = (Inl e, self1, w1)"
  then show "async_with env self w body = (Inl e, self1, w1)"
    by (simp add: async_with_def)
qed

text \<open>With the sample registrar, a body that raises \<open>IndexError\<close>: one logout call is sent
  behind the login call, the session id is cleared, and \<open>IndexError\<close> leaves the scope.
  With a registrar that cannot be reached, the login fails: its exception leaves the scope
  and only the login call has been sent.\<close>

theorem async_with_exit_witness:
  "fst (aenter env_up (INWXService env_up) world_sample) = Inr ()
   \<and> truthy (session_id (fst (snd (aenter env_up (INWXService env_up) world_sample))))
   \<and> map fst (rpc_calls (snd (snd
        (async_with env_up (INWXService env_up) world_sample raising_scope))))
       = [''account.login'', ''account.logout'']
   \<and> session_id (fst (snd (async_with env_up (INWXService env_up) world_sample raising_scope)))
       = JNull
   \<and> fst (async_with env_up (INWXService env_up) world_sample raising_scope) = Inl IndexError
   \<and> fst (aenter env_down (INWXService env_down) world_sample)
       = Inl (TransportError ''connection refused'')
   \<and> fst (async_with env_down (INWXService env_down) world_sample raising_scope)
       = Inl (TransportError ''connection refused'')
   \<and> map fst (rpc_calls (snd (snd
        (async_with env_down (INWXService env_down) world_sample raising_scope))))
       = [''account.login'']"
proof -
  obtain self1 w1
    where a: "aenter env_up (INWXService env_up) world_sample = (Inr (), self1, w1)"
      and t: "truthy (session_id self1)"
      and c: "map fst (rpc_calls w1) = [''account.login'']"
      and n: "length (rpc_calls w1) = 1"
  proof -
    have "fst (aenter env_up (INWXService env_up) world_sample) = Inr ()"
      and "truthy (session_id (fst (snd (aenter env_up (INWXService env_up) world_sample))))"
      and "map fst (rpc_calls (snd (snd (aenter env_up (INWXService env_up) world_sample))))
           = [''account.login'']"
      and "length (rpc_calls (snd (snd (aenter env_up (INWXService env_up) world_sample)))) = 1"
      by code_simp+
    then show ?thesis
      using that by (cases "aenter env_up (INWXService env_up) world_sample") auto
  qed
  obtain self0 w0
    where d: "aenter env_down (INWXService env_down) world_sample
              = (Inl (TransportError ''connection refused''), self0, w0)"
      and c0: "map fst (rpc_calls w0) = [''account.login'']"
  proof -
    have "fst (aenter env_down (INWXService env_down) world_sample)
          = Inl (TransportError ''connection refused'')"
      and "map fst (rpc_calls (snd (snd (aenter env_down (INWXService env_down) world_sample))))
           = [''account.login'']"
      by code_simp+
    then show ?thesis
      using that by (cases "aenter env_down (INWXService env_down) world_sample") auto
  qed
  have b: "raising_scope self1 w1 = (Inl IndexError, self1, w1)"
    by (simp add: raising_scope_def)
  have "remote env_up (length (rpc_calls w1)) (''account.logout'', [])
        = Answered (JObj [(''result'', JObj [(''code'', JNum 1000)])])"
    unfolding n by code_simp
  then have l: "fst (call_api env_up w1 ''account.logout'' []) = Inr (JObj [(''code'', JNum 1000)])"
    by (rule call_api_answered) simp_all
  have up: "map fst (rpc_calls (snd (snd
        (async_with env_up (INWXService env_up) world_sample raising_scope))))
       = [''account.login'', ''account.logout'']
     \<and> session_id (fst (snd (async_with env_up (INWXService env_up) world_sample raising_scope)))
       = JNull
     \<and> fst (async_with env_up (INWXService env_up) world_sample raising_scope) = Inl IndexError"
    using async_with_exit[of env_up "INWXService env_up" world_sample raising_scope,
        THEN conjunct1] a b t c l
    by auto
  have down: "async_with env_down (INWXService env_down) world_sample raising_scope
              = (Inl (TransportError ''connection refused''), self0, w0)"
    using async_with_exit[of env_down "INWXService env_down" world_sample raising_scope,
        THEN conjunct2] d
    by blast
  show ?thesis
    using a t up d down c0 by simp
qed

text \<open>
  Claim C2, as the specification states it, fails: the body raises \<open>IndexError\<close>, the
  logout call fails, and the exception of the logout call is the one that leaves the
  scope.
\<close>

theorem async_with_logout_masks:
  "fst (raising_scope (INWXService env_no_logout) world_sample) = Inl IndexError
   \<and> fst (async_with env_no_logout (INWXService env_no_logout) world_sample raising_scope)
       = Inl (TransportError ''connection reset'')"
  by code_simp


section \<open>Properties of the check endpoint\<close>

lemma check_one_domain: "cr_domain (fst (check_one env inwx w d)) = d"
  by (auto simp: check_one_def check_try_def
      split: prod.splits sum.splits)

lemma check_one_caught:
  "fst (check_try env inwx w d) = Inl e \<Longrightarrow>
     fst (check_one env inwx w d)
       = \<lparr> cr_domain = d, cr_verfuegbar = False, cr_preis_eur = None,
           cr_fehler = Some (StrOf e) \<rparr>"
  by (auto simp: check_one_def split: prod.splits sum.splits)

lemma check_loop_acc:
  "check_loop env inwx w ds acc =
     (case check_loop env inwx w ds [] of (rs, inwx', w') \<Rightarrow> (acc @ rs, inwx', w'))"
proof (induction ds arbitrary: inwx w acc)
  case Nil
  show ?case by simp
next
  case (Cons d ds)
  obtain r inwx1 w1 where o: "check_one env inwx w d = (r, inwx1, w1)"
    by (cases "check_one env inwx w d")
  show ?case
    using Cons[of inwx1 w1 "acc @ [r]"] Cons[of inwx1 w1 "[r]"]
    by (simp add: o split: prod.splits)
qed

lemma check_loop_Cons:
  "check_loop env inwx w (d # ds) [] =
     (case check_one env inwx w d of
        (r, inwx1, w1) \<Rightarrow>
          (case check_loop env inwx1 w1 ds [] of (rs, inwx2, w2) \<Rightarrow> (r # rs, inwx2, w2)))"
proof -
  obtain r inwx1 w1 where o: "check_one env inwx w d = (r, inwx1, w1)"
    by (cases "check_one env inwx w d")
  show ?thesis
    using check_loop_acc[of env inwx1 w1 ds "[r]"] by (simp add: o)
qed

lemma check_loop_domains:
  "length (fst (check_loop env inwx w ds [])) = length ds
   \<and> map cr_domain (fst (check_loop env inwx w ds [])) = ds"
proof (induction ds arbitrary: inwx w)
  case Nil
  show ?case by simp
next
  case (Cons d ds)
  obtain r inwx1 w1 where o: "check_one env inwx w d = (r, inwx1, w1)"
    by (cases "check_one env inwx w d")
  obtain rs inwx2 w2 where l: "check_loop env inwx1 w1 ds [] = (rs, inwx2, w2)"
    by (cases "check_loop env inwx1 w1 ds []")
  have "cr_domain r = d"
    using check_one_domain[of env inwx w d] o by simp
  then show ?case
    using Cons[of inwx1 w1]
    by (simp add: check_loop_Cons o l del: check_loop.simps(2))
qed

text \<open>The loop goes on behind every domain, whatever its check gave.\<close>

lemma check_loop_split:
  "check_loop env inwx w (pre @ d # post) [] =
     (case check_loop env inwx w pre [] of
        (rs, inwxA, wA) \<Rightarrow>
          (case check_one env inwxA wA d of
             (rd, inwxB, wB) \<Rightarrow>
               (case check_loop env inwxB wB post [] of
                  (rpost, inwxC, wC) \<Rightarrow> (rs @ rd # rpost, inwxC, wC))))"
proof (induction pre arbitrary: inwx w)
  case Nil
  show ?case
    by (simp add: check_loop_Cons del: check_loop.simps(2) split: prod.splits)
next
  case (Cons p pre)
  obtain r inwx1 w1 where o: "check_one env inwx w p = (r, inwx1, w1)"
    by (cases "check_one env inwx w p")
  show ?case
    using Cons[of inwx1 w1]
    by (simp add: check_loop_Cons o del: check_loop.simps(2) split: prod.splits)
qed

lemma check_domain_logged_in:
  assumes "truthy (session_id self)"
  shows "\<exists>d w'. check_domain env self w domain = (Inr d, self, w') \<and> cd_domain d = domain"
proof -
  have "ensure_session env self w = (Inr (session_id self), self, w)"
    using assms by (simp add: ensure_session_def)
  then show ?thesis
    using check_domain_after_session by blast
qed

lemma check_domains_batch_logged_in:
  assumes "truthy (session_id self)"
  shows "\<exists>rs w'. check_domains_batch env self w ds acc = (Inr (acc @ rs), self, w')
                 \<and> length rs = length ds \<and> map cd_domain rs = ds"
proof (induction ds arbitrary: w acc)
  case Nil
  show ?case by simp
next
  case (Cons d ds)
  obtain r w1 where c: "check_domain env self w d = (Inr r, self, w1)" and r: "cd_domain r = d"
    using check_domain_logged_in[OF assms] by blast
  obtain rs w' where "check_domains_batch env self w1 ds (acc @ [r]) = (Inr ((acc @ [r]) @ rs), self, w')"
    and "length rs = length ds" and "map cd_domain rs = ds"
    using Cons[of w1 "acc @ [r]"] by blast
  then have "check_domains_batch env self w (d # ds) acc = (Inr (acc @ (r # rs)), self, w')
      \<and> length (r # rs) = length (d # ds) \<and> map cd_domain (r # rs) = d # ds"
    using c r by simp
  then have "\<exists>w'. check_domains_batch env self w (d # ds) acc = (Inr (acc @ (r # rs)), self, w')
      \<and> length (r # rs) = length (d # ds) \<and> map cd_domain (r # rs) = d # ds"
    by (rule exI)
  then show ?case
    by (rule exI)
qed

text \<open>
  Claim C7, as the code has it. When the login at the entry of the session scope succeeds
  and the logout at its end does not fail, the endpoint returns one result for each input
  domain, in the order of the input, duplicates included. Behind every domain, whatever
  its check gave, the loop goes on with the rest of the list. An exception raised while a
  domain is processed (by the adapter's check, the price lookup or the construction of the
  result) is caught in the loop body and gives the result with \<open>verfuegbar = False\<close> and
  the text of the exception. The adapter's own batch operation, called on an adapter that
  holds a session, returns one dict for each domain, in order. When the login at the entry
  of the scope fails, the endpoint fails with the exception of the login and returns no
  result list; when the logout at the end of the scope fails, the endpoint fails with the
  exception of the logout, and the results of the loop are lost.
\<close>

theorem check_domains_results:
  "(\<forall>inwx1 w1 results inwx2 w2.
       aenter env (INWXService env) w = (Inr (), inwx1, w1)
       \<and> check_loop env inwx1 w1 domains [] = (results, inwx2, w2)
       \<and> fst (aexit env inwx2 w2) = Inr ()
       \<longrightarrow>
         fst (check_domains env w domains) = Inr results
         \<and> length results = length domains
         \<and> map cr_domain results = domains
         \<and> (\<forall>pre d post. domains = pre @ d # post \<longrightarrow>
              (case check_loop env inwx1 w1 pre [] of
                 (rs, inwxA, wA) \<Rightarrow>
                   (case check_one env inwxA wA d of
                      (rd, inwxB, wB) \<Rightarrow>
                        (case check_loop env inwxB wB post [] of
                           (rpost, inwxC, wC) \<Rightarrow>
                             results = rs @ rd # rpost \<and> length rs = length pre)))))
   \<and> (\<forall>inwx w' d e. fst (check_try env inwx w' d) = Inl e \<longrightarrow>
          fst (check_one env inwx w' d)
            = \<lparr> cr_domain = d, cr_verfuegbar = False, cr_preis_eur = None,
                cr_fehler = Some (StrOf e) \<rparr>)
   \<and> (\<forall>(self :: inwx_service) w'. truthy (session_id self) \<longrightarrow>
          (\<exists>rs. fst (check_domains_batch env self w' domains []) = Inr rs
                \<and> length rs = length domains \<and> map cd_domain rs = domains))
   \<and> (\<forall>e inwx1 w1. aenter env (INWXService env) w = (Inl e, inwx1, w1) \<longrightarrow>
          check_domains env w domains = (Inl e, w1))
   \<and> (\<forall>inwx1 w1 results inwx2 w2 e.
          aenter env (INWXService env) w = (Inr (), inwx1, w1)
          \<and> check_loop env inwx1 w1 domains [] = (results, inwx2, w2)
          \<and> fst (aexit env inwx2 w2) = Inl e
          \<longrightarrow> fst (check_domains env w domains) = Inl e)"
proof (intro conjI allI impI)
  fix inwx1 w1 results inwx2 w2
  assume a: "aenter env (INWXService env) w = (Inr (), inwx1, w1)
       \<and> check_loop env inwx1 w1 domains [] = (results, inwx2, w2)
       \<and> fst (aexit env inwx2 w2) = Inr ()"
  then have body: "check_scope env domains inwx1 w1 = (Inr results, inwx2, w2)"
    by (simp add: check_scope_def)
  have "fst (async_with env (INWXService env) w (check_scope env domains)) = Inr results"
    using a body by (simp add: async_with_entered aexit_def)
  then show "fst (check_domains env w domains) = Inr results"
    by (cases "async_with env (INWXService env) w (check_scope env domains)")
      (simp add: check_domains_def)
  show "length results = length domains" and "map cr_domain results = domains"
    using check_loop_domains[of env inwx1 w1 domains] a by simp_all
  fix pre d post
  assume s: "domains = pre @ d # post"
  have "length (fst (check_loop env inwx1 w1 pre [])) = length pre"
    using check_loop_domains by blast
  then show "case check_loop env inwx1 w1 pre [] of
                 (rs, inwxA, wA) \<Rightarrow>
                   (case check_one env inwxA wA d of
                      (rd, inwxB, wB) \<Rightarrow>
                        (case check_loop env inwxB wB post [] of
                           (rpost, inwxC, wC) \<Rightarrow>
                             results = rs @ rd # rpost \<and> length rs = length pre))"
    using a check_loop_split[of env inwx1 w1 pre d post] unfolding s
    by (auto split: prod.splits)
next
  fix inwx w' d e
  assume "fst (check_try env inwx w' d) = Inl e"
  then show "fst (check_one env inwx w' d)
            = \<lparr> cr_domain = d, cr_verfuegbar = False, cr_preis_eur = None,
                cr_fehler = Some (StrOf e) \<rparr>"
    by (rule check_one_caught)
next
  fix self :: inwx_service and w'
  assume "truthy (session_id self)"
  then show "\<exists>rs. fst (check_domains_batch env self w' domains []) = Inr rs
                \<and> length rs = length domains \<and> map cd_domain rs = domains"
    using check_domains_batch_logged_in[of self env w' domains "[]"] by auto
next
  fix e inwx1 w1
  assume "aenter env (INWXService env) w = (Inl e, inwx1, w1)"
  then show "check_domains env w domains = (Inl e, w1)"
    by (simp add: check_domains_def async_with_def)
next
  fix inwx1 w1 results inwx2 w2 e
  assume a: "aenter env (INWXService env) w = (Inr (), inwx1, w1)
          \<and> check_loop env inwx1 w1 domains [] = (results, inwx2, w2)
          \<and> fst (aexit env inwx2 w2) = Inl e"
  then have body: "check_scope env domains inwx1 w1 = (Inr results, inwx2, w2)"
    by (simp add: check_scope_def)
  have "fst (async_with env (INWXService env) w (check_scope env domains)) = Inl e"
    using a body by (simp add: async_with_entered aexit_def)
  then show "fst (check_domains env w domains) = Inl e"
    by (cases "async_with env (INWXService env) w (check_scope env domains)")
      (simp add: check_domains_def)
qed

text \<open>With the sample registrar and a data store whose second request fails: the price
  lookup for the second domain raises, its result carries the exception, and the third
  domain is checked all the same. With a registrar that cannot be reached, the login
  inside the adapter's check raises and the loop body turns it into a result, while the
  login at the entry of the scope makes the endpoint fail. With a registrar that answers
  all but the logout, the endpoint fails with the exception of the logout.\<close>

theorem check_domains_results_witness:
  "fst (aenter env_flaky (INWXService env_flaky) world_sample) = Inr ()
   \<and> fst (check_domains env_flaky world_sample [''free.de'', ''free.de'', ''taken.de''])
       = Inr [\<lparr> cr_domain = ''free.de'', cr_verfuegbar = True, cr_preis_eur = Some 10,
                cr_fehler = None \<rparr>,
              \<lparr> cr_domain = ''free.de'', cr_verfuegbar = False, cr_preis_eur = None,
                cr_fehler = Some (StrOf (DataStoreError ''data store timeout'')) \<rparr>,
              \<lparr> cr_domain = ''taken.de'', cr_verfuegbar = False, cr_preis_eur = Some 10,
                cr_fehler = None \<rparr>]
   \<and> fst (check_try env_down (INWXService env_down) world_sample ''free.de'')
       = Inl (TransportError ''connection refused'')
   \<and> fst (check_one env_down (INWXService env_down) world_sample ''free.de'')
       = \<lparr> cr_domain = ''free.de'', cr_verfuegbar = False, cr_preis_eur = None,
           cr_fehler = Some (StrOf (TransportError ''connection refused'')) \<rparr>
   \<and> fst (aenter env_down (INWXService env_down) world_sample)
       = Inl (TransportError ''connection refused'')
   \<and> fst (check_domains env_down world_sample [''free.de'', ''free.de'', ''taken.de''])
       = Inl (TransportError ''connection refused'')
   \<and> fst (aenter env_no_logout (INWXService env_no_logout) world_sample) = Inr ()
   \<and> fst (check_domains env_no_logout world_sample [''free.de'', ''free.de'', ''taken.de''])
       = Inl (TransportError ''connection reset'')
   \<and> truthy (session_id (fst (snd (aenter env_up (INWXService env_up) world_sample))))
   \<and> map cd_domain (projr (fst (check_domains_batch env_up
        (fst (snd (aenter env_up (INWXService env_up) world_sample)))
        world_sample [''free.de'', ''free.de''] [])))
       = [''free.de'', ''free.de'']"
proof -
  let ?ds = "[''free.de'', ''free.de'', ''taken.de'']"
  let ?out = "[\<lparr> cr_domain = ''free.de'', cr_verfuegbar = True, cr_preis_eur = Some 10,
                cr_fehler = None \<rparr>,
              \<lparr> cr_domain = ''free.de'', cr_verfuegbar = False, cr_preis_eur = None,
                cr_fehler = Some (StrOf (DataStoreError ''data store timeout'')) \<rparr>,
              \<lparr> cr_domain = ''taken.de'', cr_verfuegbar = False, cr_preis_eur = Some 10,
                cr_fehler = None \<rparr>]"
  obtain inwx1 w1 where a: "aenter env_flaky (INWXService env_flaky) world_sample = (Inr (), inwx1, w1)"
  proof -
    have "fst (aenter env_flaky (INWXService env_flaky) world_sample) = Inr ()"
      by code_simp
    then show ?thesis
      using that by (cases "aenter env_flaky (INWXService env_flaky) world_sample") auto
  qed
  obtain inwx2 w2 where l: "check_loop env_flaky inwx1 w1 ?ds [] = (?out, inwx2, w2)"
    and x: "fst (aexit env_flaky inwx2 w2) = Inr ()"
  proof -
    have "fst (check_loop env_flaky
                (fst (snd (aenter env_flaky (INWXService env_flaky) world_sample)))
                (snd (snd (aenter env_flaky (INWXService env_flaky) world_sample))) ?ds [])
          = ?out"
      and "fst (aexit env_flaky
                 (fst (snd (check_loop env_flaky
                    (fst (snd (aenter env_flaky (INWXService env_flaky) world_sample)))
                    (snd (snd (aenter env_flaky (INWXService env_flaky) world_sample))) ?ds [])))
                 (snd (snd (check_loop env_flaky
                    (fst (snd (aenter env_flaky (INWXService env_flaky) world_sample)))
                    (snd (snd (aenter env_flaky (INWXService env_flaky) world_sample))) ?ds []))))
           = Inr ()"
      by code_simp+
    then show ?thesis
      using that a by (cases "check_loop env_flaky inwx1 w1 ?ds []") auto
  qed
  have t: "truthy (session_id (fst (snd (aenter env_up (INWXService env_up) world_sample))))"
    by code_simp
  have e: "fst (check_try env_down (INWXService env_down) world_sample ''free.de'')
           = Inl (TransportError ''connection refused'')"
    by code_simp
  have 1: "fst (check_domains env_flaky world_sample ?ds) = Inr ?out"
    using check_domains_results[of env_flaky world_sample ?ds, THEN conjunct1] a l x by blast
  have 2: "fst (check_one env_down (INWXService env_down) world_sample ''free.de'')
       = \<lparr> cr_domain = ''free.de'', cr_verfuegbar = False, cr_preis_eur = None,
           cr_fehler = Some (StrOf (TransportError ''connection refused'')) \<rparr>"
    using check_domains_results[of env_down world_sample ?ds, THEN conjunct2, THEN conjunct1,
        rule_format, OF e] .
  have "\<exists>rs. fst (check_domains_batch env_up
        (fst (snd (aenter env_up (INWXService env_up) world_sample)))
        world_sample [''free.de'', ''free.de''] []) = Inr rs
      \<and> length rs = length [''free.de'', ''free.de'']
      \<and> map cd_domain rs = [''free.de'', ''free.de'']"
    using check_domains_results[of env_up world_sample "[''free.de'', ''free.de'']",
        THEN conjunct2, THEN conjunct2, THEN conjunct1, rule_format, OF t] .
  then obtain rs where "fst (check_domains_batch env_up
        (fst (snd (aenter env_up (INWXService env_up) world_sample)))
        world_sample [''free.de'', ''free.de''] []) = Inr rs"
    and "map cd_domain rs = [''free.de'', ''free.de'']"
    by auto
  obtain inwx0 w0
    where d: "aenter env_down (INWXService env_down) world_sample
              = (Inl (TransportError ''connection refused''), inwx0, w0)"
  proof -
    have "fst (aenter env_down (INWXService env_down) world_sample)
          = Inl (TransportError ''connection refused'')"
      by code_simp
    then show ?thesis
      using that by (cases "aenter env_down (INWXService env_down) world_sample") auto
  qed
  have 3: "fst (check_domains env_down world_sample ?ds)
           = Inl (TransportError ''connection refused'')"
    using check_domains_results[of env_down world_sample ?ds,
        THEN conjunct2, THEN conjunct2, THEN conjunct2, THEN conjunct1, rule_format, OF d]
    by simp
  obtain inwx3 w3
    where a3: "aenter env_no_logout (INWXService env_no_logout) world_sample = (Inr (), inwx3, w3)"
  proof -
    have "fst (aenter env_no_logout (INWXService env_no_logout) world_sample) = Inr ()"
      by code_simp
    then show ?thesis
      using that
      by (cases "aenter env_no_logout (INWXService env_no_logout) world_sample") auto
  qed
  obtain results4 inwx4 w4
    where l4: "check_loop env_no_logout inwx3 w3 ?ds [] = (results4, inwx4, w4)"
      and x4: "fst (aexit env_no_logout inwx4 w4) = Inl (TransportError ''connection reset'')"
  proof -
    have "fst (aexit env_no_logout
                 (fst (snd (check_loop env_no_logout
                    (fst (snd (aenter env_no_logout (INWXService env_no_logout) world_sample)))
                    (snd (snd (aenter env_no_logout (INWXService env_no_logout) world_sample)))
                    ?ds [])))
                 (snd (snd (check_loop env_no_logout
                    (fst (snd (aenter env_no_logout (INWXService env_no_logout) world_sample)))
                    (snd (snd (aenter env_no_logout (INWXService env_no_logout) world_sample)))
                    ?ds []))))
           = Inl (TransportError ''connection reset'')"
      by code_simp
    then show ?thesis
      using that a3 by (cases "check_loop env_no_logout inwx3 w3 ?ds []") auto
  qed
  have 4: "fst (check_domains env_no_logout world_sample ?ds)
           = Inl (TransportError ''connection reset'')"
    using check_domains_results[of env_no_logout world_sample ?ds,
        THEN conjunct2, THEN conjunct2, THEN conjunct2, THEN conjunct2, rule_format,
        of inwx3 w3 results4 inwx4 w4 "TransportError ''connection reset''"] a3 l4 x4
    by blast
  from \<open>fst (check_domains_batch env_up
        (fst (snd (aenter env_up (INWXService env_up) world_sample)))
        world_sample [''free.de'', ''free.de''] []) = Inr rs\<close>
    \<open>map cd_domain rs = [''free.de'', ''free.de'']\<close>
  show ?thesis
    using a 1 2 e t d 3 a3 4 by simp
qed

text \<open>
  Claim C7, as the specification states it, fails: when the registrar cannot be reached,
  the login at the entry of the scope raises and the endpoint returns no result for
  either of the two domains.
\<close>

theorem check_domains_raises:
  "fst (check_domains env_down world_sample [''free.de'', ''taken.de''])
     = Inl (TransportError ''connection refused'')"
  by code_simp


section \<open>Properties of the registration endpoint\<close>

lemma get_kunde_by_id_world:
  "snd (get_kunde_by_id env w k) = w\<lparr> db_requests := Suc (db_requests w) \<rparr>"
  by (simp add: get_kunde_by_id_def Let_def split: option.splits)

lemma get_tld_by_name_world:
  "snd (get_tld_by_name env w n) = w\<lparr> db_requests := Suc (db_requests w) \<rparr>"
  by (simp add: get_tld_by_name_def Let_def split: option.splits)



lemma rsplit1_dot:
  "CHR ''.'' \<in> set domain \<Longrightarrow> rsplit1 domain = [before_last_dot domain, last_label domain]"
  by (simp add: rsplit1_def)

text \<open>The cut is at the last dot: the second part holds no dot, and the two parts with a
  dot between them are the domain.\<close>

lemma last_label_no_dot: "CHR ''.'' \<notin> set (last_label domain)"
proof
  assume "CHR ''.'' \<in> set (last_label domain)"
  then have "CHR ''.'' \<in> set (takeWhile (\<lambda>c. c \<noteq> CHR ''.'') (rev domain))"
    by (simp add: last_label_def)
  then show False
    using set_takeWhileD by fastforce
qed

lemma split_at_last_dot:
  assumes "CHR ''.'' \<in> set domain"
  shows "domain = before_last_dot domain @ ''.'' @ last_label domain"
proof -
  let ?P = "\<lambda>c. c \<noteq> CHR ''.''"
  let ?d = "dropWhile ?P (rev domain)"
  have "?d \<noteq> []"
    using assms by (auto simp: dropWhile_eq_Nil_conv)
  moreover from this have "\<not> ?P (hd ?d)"
    by (rule hd_dropWhile)
  ultimately have d: "?d = CHR ''.'' # drop 1 ?d"
    by (cases ?d) auto
  have "rev domain = takeWhile ?P (rev domain) @ ?d"
    by simp
  then have "rev domain = takeWhile ?P (rev domain) @ CHR ''.'' # drop 1 ?d"
    using d by simp
  then have "rev (rev domain) = rev (takeWhile ?P (rev domain) @ CHR ''.'' # drop 1 ?d)"
    by (rule arg_cong)
  then show ?thesis
    by (simp add: before_last_dot_def last_label_def)
qed

text \<open>The session scope around the adapter's \<open>register_domain\<close>: it sends at most the
  login and the logout call, leaves the data store alone, and its value is the dict of
  the adapter.\<close>

lemma async_with_register_world:
  "\<exists>cs. snd (snd (async_with env self w (register_scope domain)))
          = w\<lparr> rpc_calls := rpc_calls w @ cs \<rparr> \<and> length cs \<le> 2"
proof -
  obtain x1 s1 w1 where lg: "login env self w = (x1, s1, w1)"
    by (cases "login env self w")
  have w1: "w1 = w\<lparr> rpc_calls := rpc_calls w
            @ [(''account.login'',
                [(''user'', JStr (username self)), (''pass'', JStr (password self))])] \<rparr>"
    using login_world[of env self w] lg by simp
  show ?thesis
  proof (cases x1)
    case (Inl e)
    then have "snd (snd (async_with env self w (register_scope domain))) = w1"
      by (simp add: async_with_def aenter_def lg)
    then show ?thesis
      using w1 by (intro exI[of _ "[(''account.login'',
                [(''user'', JStr (username self)), (''pass'', JStr (password self))])]"]) simp
  next
    case (Inr sid)
    obtain x3 s3 w3 where lo: "logout env s1 w1 = (x3, s3, w3)"
      by (cases "logout env s1 w1")
    have w3: "w3 = (if truthy (session_id s1)
                    then w1\<lparr> rpc_calls := rpc_calls w1 @ [(''account.logout'', [])] \<rparr> else w1)"
      using logout_world[of env s1 w1] lo by simp
    have "snd (snd (async_with env self w (register_scope domain))) = w3"
      using Inr by (simp add: async_with_def aenter_def aexit_def register_scope_def lg lo
          split: sum.splits)
    then show ?thesis
    proof (cases "truthy (session_id s1)")
      case True
      assume "snd (snd (async_with env self w (register_scope domain))) = w3"
      then show ?thesis
        using w1 w3 True
        by (intro exI[of _ "[(''account.login'',
                [(''user'', JStr (username self)), (''pass'', JStr (password self))]),
                (''account.logout'', [])]"]) simp
    next
      case False
      assume "snd (snd (async_with env self w (register_scope domain))) = w3"
      then show ?thesis
        using w1 w3 False
        by (intro exI[of _ "[(''account.login'',
                [(''user'', JStr (username self)), (''pass'', JStr (password self))])]"]) simp
    qed
  qed
qed

lemma async_with_register_value:
  "fst (async_with env self w (register_scope domain)) = Inr res
   \<Longrightarrow> res = inwx_register_domain domain"
  by (auto simp: async_with_def aenter_def aexit_def register_scope_def
      split: prod.splits sum.splits)





text \<open>What the endpoint does once the request has passed the three checks.\<close>

lemma register_domain_valid:
  assumes "get_kunde_by_id env w kunden_id = (Inr (Some kunde), w1)"
    and "CHR ''.'' \<in> set domain"
    and "get_tld_by_name env w1 (last_label domain) = (Inr (Some tld_data), w2)"
    and "async_with env (INWXService env) w2 (register_scope domain) = (x3, inwx3, w3)"
  shows "register_domain env w fresh_id kunden_id domain =
     (case x3 of
        Inl e \<Rightarrow> (Inl e, w3)
      | Inr inwx_result \<Rightarrow>
          (case create_domain_registrierung env w3
                  (registrierung_data fresh_id kunden_id (before_last_dot domain)
                     (last_label domain) domain tld_data inwx_result) of
             (Inl e, w4) \<Rightarrow> (Inl e, w4)
           | (Inr registrierung, w4) \<Rightarrow>
               (Inr \<lparr> rr_success = rg_success inwx_result,
                      rr_registrierung = Some registrierung,
                      rr_fehler = None \<rparr>, w4)))"
  using assms by (simp add: register_domain_def rsplit1_dot split: sum.splits)

lemma create_domain_registrierung_cases:
  "create_domain_registrierung env w row =
     (case data_store_fault env (db_requests w) of
        Some msg \<Rightarrow> (Inl (DataStoreError msg), w\<lparr> db_requests := Suc (db_requests w) \<rparr>)
      | None \<Rightarrow>
          (Inr row, w\<lparr> db_requests := Suc (db_requests w),
                        domain_registrierung := domain_registrierung w @ [row] \<rparr>))"
  by (simp add: create_domain_registrierung_def Let_def split: option.splits)

text \<open>
  Claim C9. For a request that passes the three checks, the domain is cut at its last dot:
  the base and the TLD, with a dot between them, are the domain, and the TLD holds no dot.
  The endpoint adds at most one row to the table of registrations; the row carries this
  base, this TLD, the whole domain, and the status \<open>registered\<close>, as the adapter's
  \<open>register_domain\<close> reports success. Whenever the endpoint returns a response, the row
  has been added and is the row of the response; it returns one when the session scope
  ends without an exception and the data store accepts the insert. The status is fixed by
  the success flag alone, \<open>registered\<close> for success and \<open>failed\<close> otherwise, and the
  endpoint sends at most the login and the logout call to the registrar.
\<close>

theorem register_domain_record:
  "(\<forall>kunde w1 tld_data w2.
       get_kunde_by_id env w kunden_id = (Inr (Some kunde), w1)
       \<and> CHR ''.'' \<in> set domain
       \<and> get_tld_by_name env w1 (last_label domain) = (Inr (Some tld_data), w2)
       \<longrightarrow>
         domain = before_last_dot domain @ ''.'' @ last_label domain
         \<and> CHR ''.'' \<notin> set (last_label domain)
         \<and> (domain_registrierung (snd (register_domain env w fresh_id kunden_id domain))
               = domain_registrierung w
            \<or> domain_registrierung (snd (register_domain env w fresh_id kunden_id domain))
               = domain_registrierung w
                 @ [\<lparr> r_id = fresh_id, r_kunden_id = kunden_id,
                      r_wunschdomain = before_last_dot domain, r_tld = last_label domain,
                      r_vollstaendige_domain = domain, r_vk_preis_eur = vk_eur tld_data,
                      r_status = ''registered'',
                      r_inwx_request_payload = JObj [(''domain'', JStr domain)],
                      r_inwx_response_payload = inwx_register_domain domain \<rparr>])
         \<and> (\<forall>resp. fst (register_domain env w fresh_id kunden_id domain) = Inr resp \<longrightarrow>
                rr_success resp
                \<and> rr_registrierung resp
                    = Some \<lparr> r_id = fresh_id, r_kunden_id = kunden_id,
                             r_wunschdomain = before_last_dot domain, r_tld = last_label domain,
                             r_vollstaendige_domain = domain, r_vk_preis_eur = vk_eur tld_data,
                             r_status = ''registered'',
                             r_inwx_request_payload = JObj [(''domain'', JStr domain)],
                             r_inwx_response_payload = inwx_register_domain domain \<rparr>
                \<and> domain_registrierung (snd (register_domain env w fresh_id kunden_id domain))
                    = domain_registrierung w
                      @ [\<lparr> r_id = fresh_id, r_kunden_id = kunden_id,
                           r_wunschdomain = before_last_dot domain, r_tld = last_label domain,
                           r_vollstaendige_domain = domain, r_vk_preis_eur = vk_eur tld_data,
                           r_status = ''registered'',
                           r_inwx_request_payload = JObj [(''domain'', JStr domain)],
                           r_inwx_response_payload = inwx_register_domain domain \<rparr>])
         \<and> (\<forall>res. fst (async_with env (INWXService env) w2 (register_scope domain)) = Inr res
                   \<and> data_store_fault env (db_requests w2) = None \<longrightarrow>
                (\<exists>resp. fst (register_domain env w fresh_id kunden_id domain) = Inr resp))
         \<and> length (rpc_calls (snd (register_domain env w fresh_id kunden_id domain)))
             \<le> length (rpc_calls w) + 2)
   \<and> (\<forall>fid kid base tld_name dom tld_data res.
         r_status (registrierung_data fid kid base tld_name dom tld_data res)
           = (if rg_success res then ''registered'' else ''failed'')
         \<and> (r_status (registrierung_data fid kid base tld_name dom tld_data res) = ''registered''
              \<longleftrightarrow> rg_success res))
   \<and> rsplit1 ''my.company.de'' = [''my.company'', ''de'']"
proof (intro conjI allI impI)
  fix kunde w1 tld_data w2
  assume a: "get_kunde_by_id env w kunden_id = (Inr (Some kunde), w1)
       \<and> CHR ''.'' \<in> set domain
       \<and> get_tld_by_name env w1 (last_label domain) = (Inr (Some tld_data), w2)"
  let ?row = "\<lparr> r_id = fresh_id, r_kunden_id = kunden_id,
                r_wunschdomain = before_last_dot domain, r_tld = last_label domain,
                r_vollstaendige_domain = domain, r_vk_preis_eur = vk_eur tld_data,
                r_status = ''registered'',
                r_inwx_request_payload = JObj [(''domain'', JStr domain)],
                r_inwx_response_payload = inwx_register_domain domain \<rparr>"
  let ?R = "register_domain env w fresh_id kunden_id domain"
  have w1: "w1 = w\<lparr> db_requests := Suc (db_requests w) \<rparr>"
    using get_kunde_by_id_world[of env w kunden_id] a by simp
  have w2: "w2 = w1\<lparr> db_requests := Suc (db_requests w1) \<rparr>"
    using get_tld_by_name_world[of env w1 "last_label domain"] a by simp
  obtain x3 inwx3 w3
    where s: "async_with env (INWXService env) w2 (register_scope domain) = (x3, inwx3, w3)"
    by (cases "async_with env (INWXService env) w2 (register_scope domain)")
  obtain cs where w3: "w3 = w2\<lparr> rpc_calls := rpc_calls w2 @ cs \<rparr>" and cs: "length cs \<le> 2"
    using async_with_register_world[of env "INWXService env" w2 domain] s by auto
  have row: "registrierung_data fresh_id kunden_id (before_last_dot domain)
               (last_label domain) domain tld_data (inwx_register_domain domain) = ?row"
    by (simp add: registrierung_data_def inwx_register_domain_def)
  have R: "?R =
     (case x3 of
        Inl e \<Rightarrow> (Inl e, w3)
      | Inr inwx_result \<Rightarrow>
          (case create_domain_registrierung env w3
                  (registrierung_data fresh_id kunden_id (before_last_dot domain)
                     (last_label domain) domain tld_data inwx_result) of
             (Inl e, w4) \<Rightarrow> (Inl e, w4)
           | (Inr registrierung, w4) \<Rightarrow>
               (Inr \<lparr> rr_success = rg_success inwx_result,
                      rr_registrierung = Some registrierung,
                      rr_fehler = None \<rparr>, w4)))"
  proof (rule register_domain_valid)
    show "get_kunde_by_id env w kunden_id = (Inr (Some kunde), w1)"
      and "CHR ''.'' \<in> set domain"
      and "get_tld_by_name env w1 (last_label domain) = (Inr (Some tld_data), w2)"
      using a by blast+
    show "async_with env (INWXService env) w2 (register_scope domain) = (x3, inwx3, w3)"
      by (rule s)
  qed
  have val: "\<And>res. x3 = Inr res \<Longrightarrow> res = inwx_register_domain domain"
    using async_with_register_value[of env "INWXService env" w2 domain] s by simp
  have R_exn: "\<And>e. x3 = Inl e \<Longrightarrow> ?R = (Inl e, w3)"
    using R by simp
  have R_fault: "\<And>res msg. x3 = Inr res \<Longrightarrow> data_store_fault env (db_requests w3) = Some msg
      \<Longrightarrow> ?R = (Inl (DataStoreError msg), w3\<lparr> db_requests := Suc (db_requests w3) \<rparr>)"
    using R by (simp add: create_domain_registrierung_cases)
  have R_ok: "\<And>res. x3 = Inr res \<Longrightarrow> data_store_fault env (db_requests w3) = None
      \<Longrightarrow> ?R = (Inr \<lparr> rr_success = True, rr_registrierung = Some ?row, rr_fehler = None \<rparr>,
                w3\<lparr> db_requests := Suc (db_requests w3),
                    domain_registrierung := domain_registrierung w3 @ [?row] \<rparr>)"
  proof -
    fix res
    assume x: "x3 = Inr res" and ok: "data_store_fault env (db_requests w3) = None"
    have res: "res = inwx_register_domain domain"
      using x by (rule val)
    show "?R = (Inr \<lparr> rr_success = True, rr_registrierung = Some ?row, rr_fehler = None \<rparr>,
                w3\<lparr> db_requests := Suc (db_requests w3),
                    domain_registrierung := domain_registrierung w3 @ [?row] \<rparr>)"
      unfolding R x res using ok
      by (simp add: create_domain_registrierung_cases row) (simp add: inwx_register_domain_def)
  qed
  have tabs: "domain_registrierung w3 = domain_registrierung w"
    and reqs: "db_requests w3 = db_requests w2"
    and calls: "length (rpc_calls w3) \<le> length (rpc_calls w) + 2"
    using cs by (simp_all add: w1 w2 w3)
  show "domain = before_last_dot domain @ ''.'' @ last_label domain"
    using a by (intro split_at_last_dot) simp
  show "CHR ''.'' \<notin> set (last_label domain)"
    by (rule last_label_no_dot)
  show "domain_registrierung (snd ?R) = domain_registrierung w
        \<or> domain_registrierung (snd ?R) = domain_registrierung w @ [?row]"
  proof (cases x3)
    case (Inl e)
    then show ?thesis
      using R_exn tabs by simp
  next
    case (Inr res)
    then show ?thesis
      using R_fault[OF Inr] R_ok[OF Inr] tabs
      by (cases "data_store_fault env (db_requests w3)") simp_all
  qed
  show "length (rpc_calls (snd ?R)) \<le> length (rpc_calls w) + 2"
  proof (cases x3)
    case (Inl e)
    then show ?thesis
      using R_exn calls by simp
  next
    case (Inr res)
    then show ?thesis
      using R_fault[OF Inr] R_ok[OF Inr] calls
      by (cases "data_store_fault env (db_requests w3)") simp_all
  qed
  {
    fix resp
    assume ret: "fst ?R = Inr resp"
    then obtain res where x: "x3 = Inr res"
      using R_exn by (cases x3) auto
    have ok: "data_store_fault env (db_requests w3) = None"
      using ret R_fault[OF x] by (cases "data_store_fault env (db_requests w3)") auto
    show "rr_success resp" and "rr_registrierung resp = Some ?row"
      and "domain_registrierung (snd ?R) = domain_registrierung w @ [?row]"
      using ret R_ok[OF x ok] tabs by auto
  }
  {
    fix res
    assume "fst (async_with env (INWXService env) w2 (register_scope domain)) = Inr res
            \<and> data_store_fault env (db_requests w2) = None"
    then have "x3 = Inr res" and "data_store_fault env (db_requests w3) = None"
      using s reqs by simp_all
    then show "\<exists>resp. fst ?R = Inr resp"
      using R_ok by simp
  }
next
  fix fid kid base tld_name dom tld_data res
  show "r_status (registrierung_data fid kid base tld_name dom tld_data res)
           = (if rg_success res then ''registered'' else ''failed'')"
    by (simp add: registrierung_data_def)
  show "r_status (registrierung_data fid kid base tld_name dom tld_data res) = ''registered''
          \<longleftrightarrow> rg_success res"
    by (simp add: registrierung_data_def)
next
  show "rsplit1 ''my.company.de'' = [''my.company'', ''de'']"
    by code_simp
qed

text \<open>With the sample registrar and data store, the customer \<open>c1\<close> registers
  \<open>my.company.de\<close>: one row is stored, with base \<open>my.company\<close>, TLD \<open>de\<close> and status
  \<open>registered\<close>.\<close>

theorem register_domain_record_witness:
  "fst (get_kunde_by_id env_up world_sample ''c1'') = Inr (Some kunde_sample)
   \<and> CHR ''.'' \<in> set ''my.company.de''
   \<and> before_last_dot ''my.company.de'' = ''my.company''
   \<and> last_label ''my.company.de'' = ''de''
   \<and> fst (get_tld_by_name env_up (snd (get_kunde_by_id env_up world_sample ''c1'')) ''de'')
       = Inr (Some tld_de)
   \<and> domain_registrierung (snd (register_domain env_up world_sample ''id1'' ''c1'' ''my.company.de''))
       = [\<lparr> r_id = ''id1'', r_kunden_id = ''c1'',
            r_wunschdomain = ''my.company'', r_tld = ''de'',
            r_vollstaendige_domain = ''my.company.de'', r_vk_preis_eur = 10,
            r_status = ''registered'',
            r_inwx_request_payload = JObj [(''domain'', JStr ''my.company.de'')],
            r_inwx_response_payload = inwx_register_domain ''my.company.de'' \<rparr>]
   \<and> rr_success (projr (fst (register_domain env_up world_sample ''id1'' ''c1'' ''my.company.de'')))"
proof -
  let ?R = "register_domain env_up world_sample ''id1'' ''c1'' ''my.company.de''"
  have b: "before_last_dot ''my.company.de'' = ''my.company''"
    and l: "last_label ''my.company.de'' = ''de''"
    and d: "CHR ''.'' \<in> set ''my.company.de''"
    and e: "domain_registrierung world_sample = []"
    and p: "vk_eur tld_de = 10"
    by code_simp+
  obtain w1 where k: "get_kunde_by_id env_up world_sample ''c1'' = (Inr (Some kunde_sample), w1)"
  proof -
    have "fst (get_kunde_by_id env_up world_sample ''c1'') = Inr (Some kunde_sample)"
      by code_simp
    then show ?thesis
      using that by (cases "get_kunde_by_id env_up world_sample ''c1''") auto
  qed
  obtain w2 where t: "get_tld_by_name env_up w1 (last_label ''my.company.de'') = (Inr (Some tld_de), w2)"
  proof -
    have "fst (get_tld_by_name env_up (snd (get_kunde_by_id env_up world_sample ''c1''))
                 (last_label ''my.company.de'')) = Inr (Some tld_de)"
      by code_simp
    then show ?thesis
      using that k by (cases "get_tld_by_name env_up w1 (last_label ''my.company.de'')") auto
  qed
  obtain resp where r: "fst ?R = Inr resp"
  proof -
    have "case fst ?R of Inl e \<Rightarrow> False | Inr resp \<Rightarrow> True"
      by code_simp
    then show ?thesis
      using that by (cases "fst ?R") auto
  qed
  have "rr_success resp
        \<and> domain_registrierung (snd ?R)
            = domain_registrierung world_sample
              @ [\<lparr> r_id = ''id1'', r_kunden_id = ''c1'',
                   r_wunschdomain = before_last_dot ''my.company.de'',
                   r_tld = last_label ''my.company.de'',
                   r_vollstaendige_domain = ''my.company.de'', r_vk_preis_eur = vk_eur tld_de,
                   r_status = ''registered'',
                   r_inwx_request_payload = JObj [(''domain'', JStr ''my.company.de'')],
                   r_inwx_response_payload = inwx_register_domain ''my.company.de'' \<rparr>]"
    using register_domain_record[of env_up world_sample "''c1''" "''my.company.de''" "''id1''",
        THEN conjunct1, rule_format, of kunde_sample w1 tld_de w2] k d t r
    by blast
  then show ?thesis
    using k t r unfolding b l e p by simp
qed


end
